theory Spec2Isabelle
  imports Complex_Main "HOL-Library.AList"
begin

section \<open>Data model of synthpop/synthesizer.py\<close>

text \<open>
  The module drives population synthesis over pandas tables. The embedding keeps
  what the module itself reads and writes:
  \<^item> a marginal is a Series with a two-level index (category name, category value):
    an association list from the index pair to the cell;
  \<^item> a joint-distribution table is a list of rows with the columns \<open>cat_id\<close> and
    \<open>frequency\<close>; a sample (PUMS) table is a list of rows with \<open>cat_id\<close> and the
    remaining columns as an association list;
  \<^item> a household table is a list of rows, each with its row index (the household id)
    and its columns; a person table is a list of rows with the column \<open>hh_id\<close> and
    the remaining columns. A column a row does not have is a missing lookup;
  \<^item> numeric cells are finite numbers, taken as reals (no rounding error, no NaN in
    the inputs); \<open>cat_id\<close> and ids are integers;
  \<^item> an exception is a value of \<open>exn\<close>, and a call that may raise returns
    \<open>exn + 'a\<close>.
\<close>

datatype exn =
    KeyError string
  | ValueError string
  | IndexError
  | Raised string
  | NaN_cat_id

type_synonym marginal = "((string \<times> string) \<times> real) list"

record cat_row =
  cat_id :: int

record jd_row = cat_row +
  frequency :: real

record 'v pums_row = cat_row +
  cells :: "(string \<times> 'v) list"

type_synonym constraint = "(int \<times> real) list"

record 'v household =
  hh_index :: int
  hh_cells :: "(string \<times> 'v) list"

record 'v person =
  hh_id :: int
  p_cells :: "(string \<times> 'v) list"

text \<open>The 4-tuple \<open>(households, people, people_chisq, people_p)\<close> that
  \<open>draw.draw_households\<close> returns and \<open>synthesize\<close> hands on.\<close>

record 'v drawn =
  households :: "'v household list"
  people :: "'v person list"
  people_chisq :: real
  people_p :: real

text \<open>
  The collaborators \<open>calculate_constraints\<close> (ipf), \<open>cat.frequency_tables\<close>,
  \<open>household_weights\<close> (ipu) and \<open>draw.draw_households\<close> live in other modules.
  They are parameters of the model: any of them may raise, the frequency tables
  \<open>'f\<close> and the weights \<open>'w\<close> are opaque to this module. The second component of
  the pair \<open>calculate_constraints\<close> returns is dropped by the caller and is left out.
  They are taken not to write to the tables they are given.
\<close>

record ('v, 'f, 'w) collaborators =
  calculate_constraints :: "marginal \<Rightarrow> real list \<Rightarrow> exn + real list"
  frequency_tables ::
    "'v pums_row list \<Rightarrow> 'v pums_row list \<Rightarrow> int list \<Rightarrow> int list \<Rightarrow> exn + ('f \<times> 'f)"
  household_weights ::
    "'f \<Rightarrow> 'f \<Rightarrow> constraint \<Rightarrow> constraint \<Rightarrow> int \<Rightarrow> exn + ('w \<times> real \<times> int)"
  draw_households ::
    "int \<Rightarrow> 'v pums_row list \<Rightarrow> 'v pums_row list \<Rightarrow> 'f \<Rightarrow> constraint \<Rightarrow> constraint
       \<Rightarrow> 'w \<Rightarrow> int \<Rightarrow> exn + 'v drawn"

text \<open>
  The six table objects the caller passes to \<open>synthesize\<close>. Python passes them by
  reference, so the model returns them as they are when the call ends. They are
  taken to be six different objects.
\<close>

record 'v tables =
  h_marg :: marginal
  p_marg :: marginal
  h_jd :: "jd_row list"
  p_jd :: "jd_row list"
  h_pums :: "'v pums_row list"
  p_pums :: "'v pums_row list"

datatype level = DEBUG | WARNING

text \<open>
  What a call of \<open>synthesize\<close> leaves behind: the value returned or the exception
  raised, the caller's six tables, and the one log record whose level depends on
  the data (\<open>Number of iterations\<close>). The other logger calls are fixed texts and
  dumps of values and are left out.
\<close>

record 'v outcome =
  result :: "exn + 'v drawn"
  tables_after :: "'v tables"
  iterations_log :: "(level \<times> int) option"

section \<open>synthesize\<close>

subsection \<open>Zero guard: \<open>replace(0, sub)\<close>\<close>

definition replace_cell :: "real \<Rightarrow> real \<Rightarrow> real" where
  "replace_cell sub v = (if v = 0 then sub else v)"

text \<open>\<open>h_marg.replace(0, marginal_zero_sub)\<close>: a new Series, same index.\<close>

definition replace_zero :: "real \<Rightarrow> marginal \<Rightarrow> marginal" where
  "replace_zero sub m = map (\<lambda>(k, v). (k, replace_cell sub v)) m"

text \<open>\<open>jd.frequency = jd.frequency.replace(0, jd_zero_sub)\<close>: the column of the
  table object is overwritten.\<close>

definition frequency_replace :: "real \<Rightarrow> jd_row list \<Rightarrow> jd_row list" where
  "frequency_replace sub jd = map (\<lambda>r. r\<lparr>frequency := replace_cell sub (frequency r)\<rparr>) jd"

subsection \<open>Constraint index and category namespacing\<close>

text \<open>\<open>constraint.index = jd.cat_id\<close>: pandas raises ValueError when the new index
  has another length than the Series.\<close>

definition set_index :: "real list \<Rightarrow> int list \<Rightarrow> exn + constraint" where
  "set_index vals ids =
     (if length ids = length vals then Inr (zip ids vals)
      else Inl (ValueError ''Length mismatch''))"

text \<open>\<open>h_jd['cat_id'].max()\<close>. On a table without rows pandas gives NaN, and the
  \<open>+=\<close> that follows turns every person \<open>cat_id\<close> into NaN; integer ids cannot
  hold that, so the model ends such a call with \<open>NaN_cat_id\<close>.\<close>

fun series_max :: "int list \<Rightarrow> int option" where
  "series_max [] = None"
| "series_max (x # xs) = (case series_max xs of None \<Rightarrow> Some x | Some m \<Rightarrow> Some (max x m))"

text \<open>\<open>table['cat_id'] += k\<close> on the table object.\<close>

definition add_cat_id :: "int \<Rightarrow> ('a cat_row_scheme) list \<Rightarrow> ('a cat_row_scheme) list" where
  "add_cat_id k rows = map (\<lambda>r. r\<lparr>cat_id := cat_id r + k\<rparr>) rows"

subsection \<open>Number of households\<close>

text \<open>\<open>h_marg.groupby(level=0).sum()\<close>: one total per category name. pandas orders
  the groups by key; the order of the groups makes no difference to the mean taken
  of them.\<close>

definition groupby_level0_sum :: "marginal \<Rightarrow> (string \<times> real) list" where
  "groupby_level0_sum m =
     map (\<lambda>c. (c, sum_list (map snd (filter (\<lambda>kv. fst (fst kv) = c) m))))
         (remdups (map (\<lambda>kv. fst (fst kv)) m))"

text \<open>Python's \<open>int\<close> on a float: truncation toward zero.\<close>

definition py_int :: "real \<Rightarrow> int" where
  "py_int x = (if 0 \<le> x then \<lfloor>x\<rfloor> else \<lceil>x\<rceil>)"

definition mean :: "real list \<Rightarrow> real" where
  "mean xs = sum_list xs / real (length xs)"

text \<open>\<open>int(h_marg.groupby(level=0).sum().mean())\<close>. Without any group the mean is
  NaN and \<open>int\<close> raises ValueError.\<close>

definition num_households_of :: "marginal \<Rightarrow> exn + int" where
  "num_households_of m =
     (let totals = map snd (groupby_level0_sum m)
      in if totals = [] then Inl (ValueError ''cannot convert float NaN to integer'')
         else Inr (py_int (mean totals)))"

subsection \<open>The stage\<close>

text \<open>What lines 33--66 have computed when the weight fitting starts.\<close>

record 'f prepared =
  h_marg_sub :: marginal
  h_constraint :: constraint
  p_constraint :: constraint
  household_freq :: 'f
  person_freq :: 'f

text \<open>
  Lines 33--39: the marginals are rebound to new Series (the caller's objects are
  not written), the \<open>frequency\<close> columns are assigned on the caller's tables.
\<close>

definition zero_guard_tables :: "real \<Rightarrow> 'v tables \<Rightarrow> 'v tables" where
  "zero_guard_tables jd_zero_sub t =
     t\<lparr>h_jd := frequency_replace jd_zero_sub (h_jd t),
       p_jd := frequency_replace jd_zero_sub (p_jd t)\<rparr>"

text \<open>Lines 58--60: \<open>p_jd['cat_id'] += p_starting_cat_id\<close> and the same on
  \<open>p_pums\<close>, both on the caller's tables.\<close>

definition namespace_tables :: "int \<Rightarrow> 'v tables \<Rightarrow> 'v tables" where
  "namespace_tables p_starting_cat_id t =
     t\<lparr>p_jd := add_cat_id p_starting_cat_id (p_jd t),
       p_pums := add_cat_id p_starting_cat_id (p_pums t)\<rparr>"

text \<open>Lines 33--66, in the order of the source; each exit carries the tables as
  they are at that point.\<close>

definition synthesize_prepare ::
  "('v, 'f, 'w) collaborators \<Rightarrow> 'v tables \<Rightarrow> real \<Rightarrow> real
     \<Rightarrow> (exn + 'f prepared) \<times> 'v tables" where
  "synthesize_prepare ext t marginal_zero_sub jd_zero_sub =
     (let h_marg1 = replace_zero marginal_zero_sub (h_marg t);
          p_marg1 = replace_zero marginal_zero_sub (p_marg t);
          t1 = zero_guard_tables jd_zero_sub t
      in case calculate_constraints ext h_marg1 (map frequency (h_jd t1)) of
           Inl e \<Rightarrow> (Inl e, t1)
         | Inr h_vals \<Rightarrow>
      (case set_index h_vals (map cat_id (h_jd t1)) of
           Inl e \<Rightarrow> (Inl e, t1)
         | Inr h_con \<Rightarrow>
      (case calculate_constraints ext p_marg1 (map frequency (p_jd t1)) of
           Inl e \<Rightarrow> (Inl e, t1)
         | Inr p_vals \<Rightarrow>
      (case series_max (map cat_id (h_jd t1)) of
           None \<Rightarrow> (Inl NaN_cat_id, t1)
         | Some m \<Rightarrow>
      (let p_starting_cat_id = m + 1;
           t2 = namespace_tables p_starting_cat_id t1
       in case set_index p_vals (map cat_id (p_jd t2)) of
            Inl e \<Rightarrow> (Inl e, t2)
          | Inr p_con \<Rightarrow>
       (case frequency_tables ext (p_pums t2) (h_pums t2)
                (map cat_id (p_jd t2)) (map cat_id (h_jd t2)) of
            Inl e \<Rightarrow> (Inl e, t2)
          | Inr (hf, pf) \<Rightarrow>
              (Inr \<lparr>h_marg_sub = h_marg1, h_constraint = h_con, p_constraint = p_con,
                    household_freq = hf, person_freq = pf\<rparr>, t2)))))))"

definition max_iterations :: int where
  "max_iterations = 20000"

text \<open>Lines 81--84: \<open>logger.warn\<close> when the solver used 20000 iterations,
  \<open>logger.debug\<close> otherwise.\<close>

definition log_iterations :: "int \<Rightarrow> level \<times> int" where
  "log_iterations iterations = (if iterations = 20000 then WARNING else DEBUG, iterations)"

definition synthesize ::
  "('v, 'f, 'w) collaborators \<Rightarrow> 'v tables \<Rightarrow> real \<Rightarrow> real \<Rightarrow> int \<Rightarrow> 'v outcome" where
  "synthesize ext t marginal_zero_sub jd_zero_sub hh_index_start =
     (case synthesize_prepare ext t marginal_zero_sub jd_zero_sub of
        (Inl e, t') \<Rightarrow> \<lparr>result = Inl e, tables_after = t', iterations_log = None\<rparr>
      | (Inr pr, t') \<Rightarrow>
     (case household_weights ext (household_freq pr) (person_freq pr)
             (h_constraint pr) (p_constraint pr) max_iterations of
        Inl e \<Rightarrow> \<lparr>result = Inl e, tables_after = t', iterations_log = None\<rparr>
      | Inr (best_weights, fit_quality, iterations) \<Rightarrow>
     (case num_households_of (h_marg_sub pr) of
        Inl e \<Rightarrow> \<lparr>result = Inl e, tables_after = t',
                  iterations_log = Some (log_iterations iterations)\<rparr>
      | Inr num_households \<Rightarrow>
          \<lparr>result = draw_households ext num_households (h_pums t') (p_pums t')
                      (household_freq pr) (h_constraint pr) (p_constraint pr)
                      best_weights hh_index_start,
            tables_after = t',
            iterations_log = Some (log_iterations iterations)\<rparr>)))"

section \<open>The drivers\<close>

text \<open>
  A geography id is a mapping from the key columns (\<open>state\<close>, \<open>county\<close>,
  \<open>tract\<close>, \<open>block group\<close>) to their values; \<open>keys()\<close> lists the first
  components in order.
\<close>

type_synonym 'v geog = "(string \<times> 'v) list"

type_synonym 'v block_group_id = "'v \<times> 'v \<times> 'v \<times> 'v"

text \<open>\<open>FitQuality(people_chisq, people_p)\<close>\<close>

type_synonym fit = "real \<times> real"

definition getitem :: "'v geog \<Rightarrow> string \<Rightarrow> exn + 'v" where
  "getitem geog_id k = (case map_of geog_id k of None \<Rightarrow> Inl (KeyError k) | Some v \<Rightarrow> Inr v)"

text \<open>\<open>BlockGroupID(geog_id['state'], geog_id['county'], geog_id['tract'],
  geog_id['block group'])\<close>\<close>

definition block_group_id :: "'v geog \<Rightarrow> exn + 'v block_group_id" where
  "block_group_id geog_id =
     (case getitem geog_id ''state'' of Inl e \<Rightarrow> Inl e | Inr s \<Rightarrow>
     (case getitem geog_id ''county'' of Inl e \<Rightarrow> Inl e | Inr c \<Rightarrow>
     (case getitem geog_id ''tract'' of Inl e \<Rightarrow> Inl e | Inr t \<Rightarrow>
     (case getitem geog_id ''block group'' of Inl e \<Rightarrow> Inl e | Inr b \<Rightarrow>
        Inr (s, c, t, b)))))"

text \<open>\<open>households[geog_cat] = value\<close>: the column is overwritten where it is,
  or added as the last one, with the same value on every row.\<close>

definition set_column :: "string \<Rightarrow> 'v \<Rightarrow> 'v household list \<Rightarrow> 'v household list" where
  "set_column c v hh = map (\<lambda>r. r\<lparr>hh_cells := AList.update c v (hh_cells r)\<rparr>) hh"

text \<open>\<open>for geog_cat in geog_id.keys(): households[geog_cat] = geog_id[geog_cat]\<close>\<close>

definition append_location_identifiers ::
  "'v geog \<Rightarrow> 'v household list \<Rightarrow> 'v household list" where
  "append_location_identifiers geog_id hh =
     fold (\<lambda>geog_cat hh'. case map_of geog_id geog_cat of
                              Some v \<Rightarrow> set_column geog_cat v hh'
                            | None \<Rightarrow> hh')
          (map fst geog_id) hh"

text \<open>The recipe hands out the tables of a geography; each getter may raise.\<close>

record 'v recipe =
  get_available_geography_ids :: "'v geog list"
  get_household_marginal_for_geography :: "'v geog \<Rightarrow> exn + marginal"
  get_person_marginal_for_geography :: "'v geog \<Rightarrow> exn + marginal"
  get_household_joint_dist_for_geography :: "'v geog \<Rightarrow> exn + ('v pums_row list \<times> jd_row list)"
  get_person_joint_dist_for_geography :: "'v geog \<Rightarrow> exn + ('v pums_row list \<times> jd_row list)"

text \<open>The four fetches, in the order both drivers make them (lines 123--138 and
  172--187).\<close>

definition fetch_tables :: "'v recipe \<Rightarrow> 'v geog \<Rightarrow> exn + 'v tables" where
  "fetch_tables recipe geog_id =
     (case get_household_marginal_for_geography recipe geog_id of Inl e \<Rightarrow> Inl e | Inr hm \<Rightarrow>
     (case get_person_marginal_for_geography recipe geog_id of Inl e \<Rightarrow> Inl e | Inr pm \<Rightarrow>
     (case get_household_joint_dist_for_geography recipe geog_id of Inl e \<Rightarrow> Inl e
        | Inr (hp, hj) \<Rightarrow>
     (case get_person_joint_dist_for_geography recipe geog_id of Inl e \<Rightarrow> Inl e
        | Inr (pp, pj) \<Rightarrow>
        Inr \<lparr>h_marg = hm, p_marg = pm, h_jd = hj, p_jd = pj, h_pums = hp, p_pums = pp\<rparr>))))"

definition geog_preprocessing ::
  "'v geog \<Rightarrow> 'v recipe \<Rightarrow> real \<Rightarrow> real \<Rightarrow> exn + ('v tables \<times> real \<times> real)" where
  "geog_preprocessing geog_id recipe marginal_zero_sub jd_zero_sub =
     (case fetch_tables recipe geog_id of Inl e \<Rightarrow> Inl e
      | Inr t \<Rightarrow> Inr (t, marginal_zero_sub, jd_zero_sub))"

text \<open>The accumulators of both drivers.\<close>

record 'v acc =
  hh_list :: "'v household list list"
  people_list :: "'v person list list"
  fit_quality :: "('v block_group_id \<times> fit) list"
  hh_index_start :: int

definition acc0 :: "'v acc" where
  "acc0 = \<lparr>hh_list = [], people_list = [], fit_quality = [], hh_index_start = 0\<rparr>"

text \<open>\<open>if len(households) > 0: hh_index_start = households.index.values[-1] + 1\<close>\<close>

definition next_index_start :: "'v household list \<Rightarrow> int \<Rightarrow> int" where
  "next_index_start hh start = (if length hh > 0 then hh_index (last hh) + 1 else start)"

text \<open>\<open>num_geogs is not None and cnt >= num_geogs\<close>\<close>

definition cap_reached :: "int option \<Rightarrow> nat \<Rightarrow> bool" where
  "cap_reached num_geogs cnt = (case num_geogs of None \<Rightarrow> False | Some n \<Rightarrow> int cnt \<ge> n)"

text \<open>\<open>pd.concat\<close> of a list of tables; it raises on the empty list. Rows of
  tables with fewer columns keep their missing lookups.\<close>

definition pd_concat :: "'a list list \<Rightarrow> exn + 'a list" where
  "pd_concat xs =
     (if xs = [] then Inl (ValueError ''No objects to concatenate'') else Inr (concat xs))"

subsection \<open>synthesize_all\<close>

text \<open>
  \<open>draw_households\<close> draws at random, so what the collaborators return may differ
  from one call to the next: the drivers take a family \<open>ext\<close>, and \<open>ext j\<close> is how
  the collaborators behave in the \<open>j\<close>-th call of \<open>synthesize\<close> the driver makes
  (counted from 0). The loop of lines 120--162 with its counter \<open>cnt\<close>; any
  exception ends the whole call.
\<close>

fun synthesize_all_loop ::
  "(nat \<Rightarrow> ('v, 'f, 'w) collaborators) \<Rightarrow> 'v recipe \<Rightarrow> int option \<Rightarrow> real \<Rightarrow> real
     \<Rightarrow> 'v geog list \<Rightarrow> nat \<Rightarrow> 'v acc \<Rightarrow> exn + 'v acc" where
  "synthesize_all_loop ext recipe num_geogs mzs jzs [] cnt a = Inr a"
| "synthesize_all_loop ext recipe num_geogs mzs jzs (geog_id # rest) cnt a =
     (case fetch_tables recipe geog_id of Inl e \<Rightarrow> Inl e | Inr t \<Rightarrow>
     (case result (synthesize (ext cnt) t mzs jzs (hh_index_start a)) of Inl e \<Rightarrow> Inl e
        | Inr r \<Rightarrow>
     (let hh = append_location_identifiers geog_id (households r)
      in case block_group_id geog_id of Inl e \<Rightarrow> Inl e | Inr key \<Rightarrow>
      (let a' = \<lparr>hh_list = hh_list a @ [hh],
                 people_list = people_list a @ [people r],
                 fit_quality = AList.update key (people_chisq r, people_p r) (fit_quality a),
                 hh_index_start = next_index_start hh (hh_index_start a)\<rparr>
       in if cap_reached num_geogs (cnt + 1) then Inr a'
          else synthesize_all_loop ext recipe num_geogs mzs jzs rest (cnt + 1) a'))))"

text \<open>\<open>if indexes is None: indexes = recipe.get_available_geography_ids()\<close>\<close>

definition resolve_indexes :: "'v recipe \<Rightarrow> 'v geog list option \<Rightarrow> 'v geog list" where
  "resolve_indexes recipe indexes =
     (case indexes of None \<Rightarrow> get_available_geography_ids recipe | Some ix \<Rightarrow> ix)"

text \<open>Lines 110--162: the lists and the map as the loop leaves them.\<close>

definition synthesize_all_lists ::
  "(nat \<Rightarrow> ('v, 'f, 'w) collaborators) \<Rightarrow> 'v recipe \<Rightarrow> int option \<Rightarrow> 'v geog list option
     \<Rightarrow> real \<Rightarrow> real \<Rightarrow> exn + 'v acc" where
  "synthesize_all_lists ext recipe num_geogs indexes marginal_zero_sub jd_zero_sub =
     synthesize_all_loop ext recipe num_geogs marginal_zero_sub jd_zero_sub
       (resolve_indexes recipe indexes) 0 acc0"

text \<open>Lines 165--168 and 314--317: \<open>pd.concat(hh_list)\<close>,
  \<open>pd.concat(people_list, ignore_index=True)\<close> and the tuple returned.\<close>

definition concat_results ::
  "('v, 'z) acc_scheme
     \<Rightarrow> exn + ('v household list \<times> 'v person list \<times> ('v block_group_id \<times> fit) list)" where
  "concat_results a =
     (case pd_concat (hh_list a) of Inl e \<Rightarrow> Inl e | Inr all_households \<Rightarrow>
     (case pd_concat (people_list a) of Inl e \<Rightarrow> Inl e | Inr all_persons \<Rightarrow>
        Inr (all_households, all_persons, fit_quality a)))"

definition synthesize_all ::
  "(nat \<Rightarrow> ('v, 'f, 'w) collaborators) \<Rightarrow> 'v recipe \<Rightarrow> int option \<Rightarrow> 'v geog list option
     \<Rightarrow> real \<Rightarrow> real
     \<Rightarrow> exn + ('v household list \<times> 'v person list \<times> ('v block_group_id \<times> fit) list)" where
  "synthesize_all ext recipe num_geogs indexes marginal_zero_sub jd_zero_sub =
     (case synthesize_all_lists ext recipe num_geogs indexes marginal_zero_sub jd_zero_sub of
        Inl e \<Rightarrow> Inl e
      | Inr a \<Rightarrow> concat_results a)"

subsection \<open>synthesize_all_in_parallel\<close>

text \<open>Lines 226--233: the geographies submitted, with the cap of \<open>num_geogs\<close>.\<close>

fun submitted :: "int option \<Rightarrow> nat \<Rightarrow> 'a list \<Rightarrow> 'a list" where
  "submitted num_geogs cnt [] = []"
| "submitted num_geogs cnt (geog_id # rest) =
     geog_id # (if cap_reached num_geogs (cnt + 1) then []
                else submitted num_geogs (cnt + 1) rest)"

text \<open>
  \<open>as_completed(fs)\<close> yields the futures in the order the pool finishes them.
  That order is the pool's choice: \<open>order\<close> lists the positions of \<open>fs\<close> in
  completion order, a permutation of \<open>[0..<length fs]\<close>.
\<close>

definition as_completed :: "nat list \<Rightarrow> 'a list \<Rightarrow> 'a list" where
  "as_completed order fs = map (\<lambda>k. fs ! k) order"

definition completion_order :: "nat list \<Rightarrow> nat \<Rightarrow> bool" where
  "completion_order order n = (distinct order \<and> set order = {..<n})"

text \<open>Lines 236--237: \<open>finished_args.append(finished_arg.result())\<close> for each
  future in turn; \<open>result()\<close> re-raises what the task raised, outside any
  \<open>try\<close>.\<close>

fun collect_results :: "(exn + 'a) list \<Rightarrow> exn + 'a list" where
  "collect_results [] = Inr []"
| "collect_results (f # fs) =
     (case f of Inl e \<Rightarrow> Inl e
      | Inr x \<Rightarrow> (case collect_results fs of Inl e \<Rightarrow> Inl e | Inr xs \<Rightarrow> Inr (x # xs)))"

text \<open>Lines 276--277: one \<open>synthesize\<close> task per entry of \<open>finished_args\<close>, in
  the order of that list, with the default \<open>hh_index_start=0\<close>. The task runs in a
  worker on its own copy of the tables; the future holds what it returned or
  raised.\<close>

definition submit_synthesize ::
  "(nat \<Rightarrow> ('v, 'f, 'w) collaborators) \<Rightarrow> ('v tables \<times> real \<times> real) list
     \<Rightarrow> (exn + 'v drawn) list" where
  "submit_synthesize ext finished_args =
     map (\<lambda>(j, (t, mzs, jzs)). result (synthesize (ext j) t mzs jzs 0))
         (enumerate 0 finished_args)"

record 'v par_acc = "'v acc" +
  printed :: "exn list"

definition par_acc0 :: "'v par_acc" where
  "par_acc0 = \<lparr>hh_list = [], people_list = [], fit_quality = [], hh_index_start = 0,
               printed = []\<rparr>"

text \<open>
  Lines 286--311. \<open>future.result()\<close> is the only statement inside \<open>try\<close>: an
  exception of the task is printed (\<open>'Generated an exception: {0}'.format(e)\<close>,
  kept as the exception printed) and the loop goes on; the \<open>else\<close> branch is
  outside the handler.
\<close>

fun process_results ::
  "'v geog list \<Rightarrow> nat \<Rightarrow> (exn + 'v drawn) list \<Rightarrow> 'v par_acc \<Rightarrow> exn + 'v par_acc" where
  "process_results geog_ids i [] a = Inr a"
| "process_results geog_ids i (future # rest) a =
     (case future of
        Inl e \<Rightarrow> process_results geog_ids (i + 1) rest (a\<lparr>printed := printed a @ [e]\<rparr>)
      | Inr r \<Rightarrow>
          if length geog_ids \<le> i then Inl IndexError
          else
            (let geog_id = geog_ids ! i;
                 hh1 = append_location_identifiers geog_id (households r);
                 hh = map (\<lambda>h. h\<lparr>hh_index := hh_index h + hh_index_start a\<rparr>) hh1;
                 pp = map (\<lambda>p. p\<lparr>hh_id := hh_id p + hh_index_start a\<rparr>) (people r)
             in case block_group_id geog_id of Inl e \<Rightarrow> Inl e | Inr key \<Rightarrow>
                  process_results geog_ids (i + 1) rest
                    (a\<lparr>hh_list := hh_list a @ [hh],
                       people_list := people_list a @ [pp],
                       fit_quality :=
                         AList.update key (people_chisq r, people_p r) (fit_quality a),
                       hh_index_start := next_index_start hh (hh_index_start a)\<rparr>)))"

text \<open>Lines 210--277: phase 1 (submit the fetches, collect their results as
  they complete) and phase 2 (submit the synthesis tasks). The value is
  \<open>geog_ids\<close> and \<open>futures\<close>.\<close>

definition parallel_futures ::
  "(nat \<Rightarrow> ('v, 'f, 'w) collaborators) \<Rightarrow> nat list \<Rightarrow> 'v recipe \<Rightarrow> int option
     \<Rightarrow> 'v geog list option \<Rightarrow> real \<Rightarrow> real
     \<Rightarrow> exn + ('v geog list \<times> (exn + 'v drawn) list)" where
  "parallel_futures ext order recipe num_geogs indexes marginal_zero_sub jd_zero_sub =
     (let geog_ids = submitted num_geogs 0 (resolve_indexes recipe indexes);
          geog_synth_args =
            map (\<lambda>geog_id. geog_preprocessing geog_id recipe marginal_zero_sub jd_zero_sub)
                geog_ids
      in case collect_results (as_completed order geog_synth_args) of
           Inl e \<Rightarrow> Inl e
         | Inr finished_args \<Rightarrow> Inr (geog_ids, submit_synthesize ext finished_args))"

text \<open>Lines 210--311: the lists, the map and the printed exceptions as phase 3
  leaves them.\<close>

definition synthesize_all_in_parallel_lists ::
  "(nat \<Rightarrow> ('v, 'f, 'w) collaborators) \<Rightarrow> nat list \<Rightarrow> 'v recipe \<Rightarrow> int option
     \<Rightarrow> 'v geog list option \<Rightarrow> real \<Rightarrow> real \<Rightarrow> exn + 'v par_acc" where
  "synthesize_all_in_parallel_lists ext order recipe num_geogs indexes mzs jzs =
     (case parallel_futures ext order recipe num_geogs indexes mzs jzs of
        Inl e \<Rightarrow> Inl e
      | Inr (geog_ids, futures) \<Rightarrow> process_results geog_ids 0 futures par_acc0)"

text \<open>The value returned, paired with the exceptions printed on the way.\<close>

definition synthesize_all_in_parallel ::
  "(nat \<Rightarrow> ('v, 'f, 'w) collaborators) \<Rightarrow> nat list \<Rightarrow> 'v recipe \<Rightarrow> int option
     \<Rightarrow> 'v geog list option \<Rightarrow> real \<Rightarrow> real
     \<Rightarrow> exn + (('v household list \<times> 'v person list \<times> ('v block_group_id \<times> fit) list)
              \<times> exn list)" where
  "synthesize_all_in_parallel ext order recipe num_geogs indexes marginal_zero_sub jd_zero_sub =
     (case synthesize_all_in_parallel_lists ext order recipe num_geogs indexes
             marginal_zero_sub jd_zero_sub of
        Inl e \<Rightarrow> Inl e
      | Inr a \<Rightarrow>
          (case concat_results a of Inl e \<Rightarrow> Inl e | Inr tables \<Rightarrow> Inr (tables, printed a)))"

section \<open>Properties named by the specification\<close>

text \<open>Python's \<open>round\<close> on a float: the nearest integer, a tie going to the even
  one. The specification words the household count with it.\<close>

definition py_round :: "real \<Rightarrow> int" where
  "py_round x =
     (let f = \<lfloor>x\<rfloor>
      in if x - of_int f < 1 / 2 then f
         else if 1 / 2 < x - of_int f then f + 1
         else if even f then f else f + 1)"

text \<open>
  Modelled from the spec: \<open>draw.draw_households\<close> is not part of this module. The
  specification has it return household records with increasing ids for the id
  offset it is given: the row index of the drawn households increases strictly
  and, when there is a row, starts at \<open>hh_index_start\<close>.
\<close>

definition index_from :: "int \<Rightarrow> 'v household list \<Rightarrow> bool" where
  "index_from start hh =
     (sorted_wrt (<) (map hh_index hh) \<and> (hh \<noteq> [] \<longrightarrow> hh_index (hd hh) = start))"

definition drawer_numbers_from_start :: "('v, 'f, 'w) collaborators \<Rightarrow> bool" where
  "drawer_numbers_from_start ext =
     (\<forall>n hp pp hf hc pc w start r.
        draw_households ext n hp pp hf hc pc w start = Inr r
          \<longrightarrow> index_from start (households r))"

text \<open>
  Modelled from the spec: \<open>draw.draw_households\<close> returns person records with
  \<open>hh_id\<close> already referencing the drawn households.
\<close>

definition drawer_links_people :: "('v, 'f, 'w) collaborators \<Rightarrow> bool" where
  "drawer_links_people ext =
     (\<forall>n hp pp hf hc pc w start r.
        draw_households ext n hp pp hf hc pc w start = Inr r
          \<longrightarrow> (\<forall>p \<in> set (people r). hh_id p \<in> set (map hh_index (households r))))"

text \<open>One past the maximum household id of a table, 0 for a table without rows.\<close>

definition one_past_max :: "'v household list \<Rightarrow> int" where
  "one_past_max hh = (if hh = [] then 0 else Max (set (map hh_index hh)) + 1)"

text \<open>The per-geography tables \<open>hh_list\<close> are stitched: each one is numbered
  upward from one past the maximum id of all tables before it.\<close>

definition stitched :: "'v household list list \<Rightarrow> bool" where
  "stitched hl = (\<forall>k < length hl. index_from (one_past_max (concat (take k hl))) (hl ! k))"

text \<open>A person row some call of the drawer returned.\<close>

definition drawn_person ::
  "(nat \<Rightarrow> ('v, 'f, 'w) collaborators) \<Rightarrow> 'v person \<Rightarrow> bool" where
  "drawn_person ext p =
     (\<exists>j n hp pp hf hc pc w start r.
        draw_households (ext j) n hp pp hf hc pc w start = Inr r \<and> p \<in> set (people r))"

text \<open>The exceptions held by a list of futures, in list order.\<close>

definition failures :: "(exn + 'a) list \<Rightarrow> exn list" where
  "failures fs = concat (map (\<lambda>f. case f of Inl e \<Rightarrow> [e] | Inr r \<Rightarrow> []) fs)"

text \<open>The geographies whose future holds a result, each with that result, in
  list order.\<close>

definition succeeded :: "'g list \<Rightarrow> (exn + 'r) list \<Rightarrow> ('g \<times> 'r) list" where
  "succeeded gs fs =
     concat (map (\<lambda>(g, f). case f of Inl e \<Rightarrow> [] | Inr r \<Rightarrow> [(g, r)]) (zip gs fs))"

text \<open>The synthesis task of a geography when its tables arrive in position \<open>j\<close>
  of \<open>finished_args\<close>: what the fetch raised, or what \<open>synthesize\<close> with
  \<open>hh_index_start=0\<close> returned or raised.\<close>

definition task_of ::
  "(nat \<Rightarrow> ('v, 'f, 'w) collaborators) \<Rightarrow> 'v recipe \<Rightarrow> real \<Rightarrow> real \<Rightarrow> nat \<Rightarrow> 'v geog
     \<Rightarrow> exn + 'v drawn" where
  "task_of ext recipe mzs jzs j geog_id =
     (case fetch_tables recipe geog_id of
        Inl e \<Rightarrow> Inl e
      | Inr t \<Rightarrow> result (synthesize (ext j) t mzs jzs 0))"

text \<open>The tables \<open>hh_list\<close> are stitched, their concatenation is strictly
  increasing, and \<open>start\<close> is one past its maximum: what the running offset
  \<open>hh_index_start\<close> stands for.\<close>

definition numbered :: "'v household list list \<Rightarrow> int \<Rightarrow> bool" where
  "numbered hl start =
     (stitched hl \<and> sorted_wrt (<) (map hh_index (concat hl))
      \<and> start = one_past_max (concat hl))"

text \<open>A household row carries the key columns of a geography id.\<close>

definition carries_keys :: "'v geog \<Rightarrow> 'v household \<Rightarrow> bool" where
  "carries_keys g h = (\<forall>c v. map_of g c = Some v \<longrightarrow> map_of (hh_cells h) c = Some v)"

section \<open>A small concrete run\<close>

text \<open>
  Collaborators for concrete runs: the fitted constraint is the frequency column,
  the solver reports \<open>iters\<close> iterations, and the drawer returns one household per
  household sample row, numbered from \<open>hh_index_start\<close>, with one person each; it
  reports the target count as chi-square. With \<open>ok = False\<close> the drawer raises.
\<close>

definition demo_ext :: "bool \<Rightarrow> int \<Rightarrow> (string, unit, unit) collaborators" where
  "demo_ext ok iters =
     \<lparr>calculate_constraints = (\<lambda>m fr. Inr fr),
      frequency_tables = (\<lambda>pp hp pc hc. Inr ((), ())),
      household_weights = (\<lambda>hf pf hc pc mx. Inr ((), 0, iters)),
      draw_households = (\<lambda>n hp pp hf hc pc w start.
        if ok then
          Inr \<lparr>households = map (\<lambda>(i, r). \<lparr>hh_index = start + int i, hh_cells = cells r\<rparr>)
                                (enumerate 0 hp),
               people = map (\<lambda>(i, r). \<lparr>hh_id = start + int i, p_cells = cells r\<rparr>)
                            (enumerate 0 hp),
               people_chisq = real_of_int n,
               people_p = 1\<rparr>
        else Inl (Raised ''degenerate weights''))\<rparr>"

text \<open>The calls of \<open>synthesize\<close> whose number is in \<open>failing\<close> raise in the drawer.\<close>

definition demo_family :: "nat list \<Rightarrow> nat \<Rightarrow> (string, unit, unit) collaborators" where
  "demo_family failing j = demo_ext (j \<notin> set failing) 5"

definition demo_tables :: "string \<Rightarrow> real \<Rightarrow> string tables" where
  "demo_tables tag x =
     \<lparr>h_marg = [((''cat1'', ''a''), 0), ((''cat2'', ''a''), x)],
      p_marg = [((''age'', ''young''), 3)],
      h_jd = [\<lparr>cat_id = 0, frequency = 0\<rparr>, \<lparr>cat_id = 1, frequency = 2\<rparr>],
      p_jd = [\<lparr>cat_id = 0, frequency = 1\<rparr>],
      h_pums = [\<lparr>cat_id = 0, cells = [(''serialno'', tag)]\<rparr>],
      p_pums = [\<lparr>cat_id = 0, cells = [(''serialno'', tag)]\<rparr>]\<rparr>"

definition demo_geog :: "string \<Rightarrow> string geog" where
  "demo_geog b = [(''state'', ''06''), (''county'', ''075''), (''tract'', ''0101''),
                  (''block group'', b)]"

text \<open>A recipe whose tables carry the block group as serial number; the household
  marginal of block group 1 totals 40, of the others 60. Fetching the household
  marginal of a block group in \<open>missing\<close> raises.\<close>

definition demo_recipe :: "string list \<Rightarrow> string recipe" where
  "demo_recipe missing =
     \<lparr>get_available_geography_ids = [demo_geog ''1'', demo_geog ''2''],
      get_household_marginal_for_geography = (\<lambda>g.
        case map_of g ''block group'' of
          None \<Rightarrow> Inl (KeyError ''block group'')
        | Some b \<Rightarrow> if b \<in> set missing then Inl (Raised ''no marginal'')
                    else Inr (h_marg (demo_tables b (if b = ''1'' then 40 else 60)))),
      get_person_marginal_for_geography = (\<lambda>g. Inr (p_marg (demo_tables ''x'' 0))),
      get_household_joint_dist_for_geography = (\<lambda>g.
        case map_of g ''block group'' of
          None \<Rightarrow> Inl (KeyError ''block group'')
        | Some b \<Rightarrow> Inr (h_pums (demo_tables b 0), h_jd (demo_tables b 0))),
      get_person_joint_dist_for_geography = (\<lambda>g.
        case map_of g ''block group'' of
          None \<Rightarrow> Inl (KeyError ''block group'')
        | Some b \<Rightarrow> Inr (p_pums (demo_tables b 0), p_jd (demo_tables b 0)))\<rparr>"

text \<open>The rows, keys and drawer results the concrete runs produce.\<close>

definition demo_household :: "int \<Rightarrow> string \<Rightarrow> string \<Rightarrow> string household" where
  "demo_household i serial b =
     \<lparr>hh_index = i,
      hh_cells = [(''serialno'', serial), (''state'', ''06''), (''county'', ''075''),
                  (''tract'', ''0101''), (''block group'', b)]\<rparr>"

definition demo_person :: "int \<Rightarrow> string \<Rightarrow> string person" where
  "demo_person i serial = \<lparr>hh_id = i, p_cells = [(''serialno'', serial)]\<rparr>"

definition demo_key :: "string \<Rightarrow> string block_group_id" where
  "demo_key b = (''06'', ''075'', ''0101'', b)"

definition demo_drawn :: "string \<Rightarrow> real \<Rightarrow> string drawn" where
  "demo_drawn serial chisq =
     \<lparr>households = [\<lparr>hh_index = 0, hh_cells = [(''serialno'', serial)]\<rparr>],
      people = [demo_person 0 serial], people_chisq = chisq, people_p = 1\<rparr>"

section \<open>The zero guard (lines 33--39)\<close>

lemma snd_replace_zero: "map snd (replace_zero sub m) = map (replace_cell sub) (map snd m)"
  by (simp add: replace_zero_def case_prod_unfold)

lemma fst_replace_zero: "map fst (replace_zero sub m) = map fst m"
  by (simp add: replace_zero_def case_prod_unfold)

lemma frequency_frequency_replace:
  "map frequency (frequency_replace sub jd) = map (replace_cell sub) (map frequency jd)"
  by (simp add: frequency_replace_def)

lemma cat_id_frequency_replace: "map cat_id (frequency_replace sub jd) = map cat_id jd"
  by (simp add: frequency_replace_def)

lemma Min_replace_cell:
  assumes "vs \<noteq> []" and "\<forall>v \<in> set vs. v \<noteq> 0 \<longrightarrow> sub \<le> v"
  shows "sub \<le> Min (set (map (replace_cell sub) vs))"
proof -
  have "\<forall>a \<in> set (map (replace_cell sub) vs). sub \<le> a"
    using assms(2) by (auto simp: replace_cell_def)
  moreover have "set (map (replace_cell sub) vs) \<noteq> {}"
    using assms(1) by simp
  ultimately show ?thesis
    by (intro Min.boundedI) auto
qed

text \<open>
  Claim C6, as amended. The zero guard keeps the index of a marginal and the
  \<open>cat_id\<close> of a joint distribution, puts the substitute into exactly the cells
  that are zero and leaves every other cell as it is. With a positive substitute
  no cell of the result is zero. The minimum of the result is at least the
  substitute when every nonzero cell of the input is (as for counts, which are at
  least 1): the guard does not raise a small or negative nonzero cell.
\<close>

theorem zero_guard_cells:
  "map fst (replace_zero sub m) = map fst m \<and>
   map snd (replace_zero sub m) = map (\<lambda>v. if v = 0 then sub else v) (map snd m) \<and>
   map cat_id (frequency_replace sub jd) = map cat_id jd \<and>
   map frequency (frequency_replace sub jd)
     = map (\<lambda>v. if v = 0 then sub else v) (map frequency jd) \<and>
   (0 < sub \<longrightarrow> 0 \<notin> set (map snd (replace_zero sub m))
               \<and> 0 \<notin> set (map frequency (frequency_replace sub jd))) \<and>
   (m \<noteq> [] \<and> (\<forall>v \<in> set (map snd m). v \<noteq> 0 \<longrightarrow> sub \<le> v)
      \<longrightarrow> sub \<le> Min (set (map snd (replace_zero sub m)))) \<and>
   (jd \<noteq> [] \<and> (\<forall>v \<in> set (map frequency jd). v \<noteq> 0 \<longrightarrow> sub \<le> v)
      \<longrightarrow> sub \<le> Min (set (map frequency (frequency_replace sub jd))))"
proof -
  have cell: "replace_cell sub = (\<lambda>v. if v = 0 then sub else v)"
    by (rule ext) (simp add: replace_cell_def)
  have nz: "0 < sub \<Longrightarrow> 0 \<notin> set (map (replace_cell sub) vs)" for vs
    by (auto simp: replace_cell_def)
  have m1: "m \<noteq> [] \<and> (\<forall>v \<in> set (map snd m). v \<noteq> 0 \<longrightarrow> sub \<le> v)
      \<longrightarrow> sub \<le> Min (set (map snd (replace_zero sub m)))"
    unfolding snd_replace_zero using Min_replace_cell [of "map snd m" sub] by simp
  have m2: "jd \<noteq> [] \<and> (\<forall>v \<in> set (map frequency jd). v \<noteq> 0 \<longrightarrow> sub \<le> v)
      \<longrightarrow> sub \<le> Min (set (map frequency (frequency_replace sub jd)))"
    unfolding frequency_frequency_replace
    using Min_replace_cell [of "map frequency jd" sub] by simp
  show ?thesis
    using m1 m2 nz [of "map snd m"] nz [of "map frequency jd"]
    by (simp only: fst_replace_zero snd_replace_zero cat_id_frequency_replace
        frequency_frequency_replace cell [symmetric]) simp
qed

theorem zero_guard_cells_witness:
  "(0::real) < 0.01 \<and>
   set (map snd [((''cat1'', ''a''), 0), ((''cat2'', ''a''), 40::real)]) = {0, 40} \<and>
   set (map frequency [\<lparr>cat_id = 0, frequency = 0\<rparr>, \<lparr>cat_id = 1, frequency = 2\<rparr>])
     = {0, 2} \<and>
   map snd (replace_zero 0.01 [((''cat1'', ''a''), 0), ((''cat2'', ''a''), 40)]) = [0.01, 40] \<and>
   0.01 \<le> Min (set (map snd (replace_zero 0.01
              [((''cat1'', ''a''), 0), ((''cat2'', ''a''), 40)]))) \<and>
   0.01 \<le> Min (set (map frequency (frequency_replace 0.01
              [\<lparr>cat_id = 0, frequency = 0\<rparr>, \<lparr>cat_id = 1, frequency = 2\<rparr>])))"
  using zero_guard_cells [of "0.01" "[((''cat1'', ''a''), 0), ((''cat2'', ''a''), 40)]"
      "[\<lparr>cat_id = 0, frequency = 0\<rparr>, \<lparr>cat_id = 1, frequency = 2\<rparr>]"]
  by simp

text \<open>A marginal with the cells 0 and 0.005: after the guard with substitute 0.01
  the minimum is 0.005.\<close>

theorem zero_guard_minimum_counterexample:
  "\<not> 0.01 \<le> Min (set (map snd (replace_zero 0.01
        [((''cat1'', ''a''), 0), ((''cat2'', ''a''), 0.005)])))"
  by (simp add: replace_zero_def replace_cell_def)

section \<open>The stage: what synthesize computes and writes\<close>

lemma series_max_Max: "series_max xs = Some m \<Longrightarrow> xs \<noteq> [] \<and> m = Max (set xs)"
proof (induction xs arbitrary: m)
  case Nil
  then show ?case by simp
next
  case (Cons x xs)
  show ?case
  proof (cases "series_max xs")
    case None
    then have "xs = []" by (cases xs) (auto split: option.splits)
    with Cons.prems None show ?thesis by simp
  next
    case (Some k)
    with Cons.IH have "xs \<noteq> []" "k = Max (set xs)" by auto
    with Cons.prems Some show ?thesis by (simp add: max.commute)
  qed
qed

lemma series_max_None: "series_max xs = None \<longleftrightarrow> xs = []"
  by (cases xs) (auto split: option.splits)

lemma zero_guard_tables_fields:
  "h_marg (zero_guard_tables s t) = h_marg t"
  "p_marg (zero_guard_tables s t) = p_marg t"
  "h_pums (zero_guard_tables s t) = h_pums t"
  "p_pums (zero_guard_tables s t) = p_pums t"
  "h_jd (zero_guard_tables s t) = frequency_replace s (h_jd t)"
  "p_jd (zero_guard_tables s t) = frequency_replace s (p_jd t)"
  by (simp_all add: zero_guard_tables_def)

lemma namespace_tables_fields:
  "h_marg (namespace_tables k t) = h_marg t"
  "p_marg (namespace_tables k t) = p_marg t"
  "h_pums (namespace_tables k t) = h_pums t"
  "h_jd (namespace_tables k t) = h_jd t"
  "p_jd (namespace_tables k t) = add_cat_id k (p_jd t)"
  "p_pums (namespace_tables k t) = add_cat_id k (p_pums t)"
  by (simp_all add: namespace_tables_def)

lemma synthesize_prepare_Inr:
  assumes "synthesize_prepare ext t mzs jzs = (Inr pr, t')"
  shows "\<exists>m. series_max (map cat_id (h_jd t)) = Some m
           \<and> t' = namespace_tables (m + 1) (zero_guard_tables jzs t)
           \<and> h_marg_sub pr = replace_zero mzs (h_marg t)
           \<and> map fst (h_constraint pr) = map cat_id (h_jd t)
           \<and> map fst (p_constraint pr) = map cat_id (p_jd t')"
  using assms
  by (auto simp: synthesize_prepare_def Let_def set_index_def zero_guard_tables_fields
      cat_id_frequency_replace namespace_tables_fields
      split: sum.splits option.splits if_splits prod.splits)

lemma synthesize_prepare_tables:
  "snd (synthesize_prepare ext t mzs jzs) = zero_guard_tables jzs t \<or>
   (\<exists>m. series_max (map cat_id (h_jd t)) = Some m \<and>
        snd (synthesize_prepare ext t mzs jzs)
          = namespace_tables (m + 1) (zero_guard_tables jzs t))"
  by (auto simp: synthesize_prepare_def Let_def zero_guard_tables_fields
      cat_id_frequency_replace
      split: sum.splits option.splits if_splits prod.splits)

lemma tables_after_synthesize:
  "tables_after (synthesize ext t mzs jzs s) = snd (synthesize_prepare ext t mzs jzs)"
  by (auto simp: synthesize_def split: sum.splits prod.splits)

lemma synthesize_after_prepare:
  assumes "synthesize_prepare ext t mzs jzs = (Inr pr, t')"
    and "household_weights ext (household_freq pr) (person_freq pr)
           (h_constraint pr) (p_constraint pr) max_iterations = Inr (w, fq, iters)"
  shows "synthesize ext t mzs jzs s =
     (case num_households_of (h_marg_sub pr) of
        Inl e \<Rightarrow> \<lparr>result = Inl e, tables_after = t',
                  iterations_log = Some (log_iterations iters)\<rparr>
      | Inr n \<Rightarrow>
          \<lparr>result = draw_households ext n (h_pums t') (p_pums t')
                      (household_freq pr) (h_constraint pr) (p_constraint pr) w s,
            tables_after = t',
            iterations_log = Some (log_iterations iters)\<rparr>)"
  using assms by (simp add: synthesize_def)

lemma cat_id_add_cat_id: "map cat_id (add_cat_id k rows) = map (\<lambda>c. c + k) (map cat_id rows)"
  by (simp add: add_cat_id_def)


lemma groupby_nonempty: "m \<noteq> [] \<Longrightarrow> map snd (groupby_level0_sum (replace_zero sub m)) \<noteq> []"
  by (cases m) (auto simp: groupby_level0_sum_def replace_zero_def)

lemma num_households_of_nonempty:
  "m \<noteq> [] \<Longrightarrow> num_households_of (replace_zero sub m)
     = Inr (py_int (mean (map snd (groupby_level0_sum (replace_zero sub m)))))"
  using groupby_nonempty [of m sub] by (simp add: num_households_of_def Let_def)

lemma demo_prepare:
  "synthesize_prepare (demo_ext ok iters) (demo_tables tag x) (1 / 100) (1 / 1000) =
     (Inr \<lparr>h_marg_sub = [((''cat1'', ''a''), 1 / 100), ((''cat2'', ''a''), if x = 0 then 1 / 100 else x)],
           h_constraint = [(0, 1 / 1000), (1, 2)], p_constraint = [(2, 1)],
           household_freq = (), person_freq = ()\<rparr>,
      \<lparr>h_marg = [((''cat1'', ''a''), 0), ((''cat2'', ''a''), x)],
       p_marg = [((''age'', ''young''), 3)],
       h_jd = [\<lparr>cat_id = 0, frequency = 1 / 1000\<rparr>, \<lparr>cat_id = 1, frequency = 2\<rparr>],
       p_jd = [\<lparr>cat_id = 2, frequency = 1\<rparr>],
       h_pums = [\<lparr>cat_id = 0, cells = [(''serialno'', tag)]\<rparr>],
       p_pums = [\<lparr>cat_id = 2, cells = [(''serialno'', tag)]\<rparr>]\<rparr>)"
  by (simp add: synthesize_prepare_def demo_ext_def demo_tables_def replace_zero_def
      replace_cell_def zero_guard_tables_def frequency_replace_def set_index_def
      namespace_tables_def add_cat_id_def Let_def)

lemma mean_two: "mean [a, b] = (a + b) / 2"
  by (simp add: mean_def)

text \<open>
  Claim C5, as amended. When the preparation and the weight fitting succeed on a
  household marginal with at least one cell, the count handed to the drawer is the
  mean, across category names, of the totals of the zero-guarded household
  marginal, cut to an integer by \<open>int\<close> (truncation toward zero; no rounding to
  the nearest). For the marginal \<open>{cat1: 0, cat2: 40}\<close> with substitute 0.01 the
  count is 20, which is also the rounded mean of 0.01 and 40.
\<close>

theorem num_households_truncated_mean:
  assumes "synthesize_prepare ext t mzs jzs = (Inr pr, t')"
    and "household_weights ext (household_freq pr) (person_freq pr)
           (h_constraint pr) (p_constraint pr) max_iterations = Inr (w, fq, iters)"
    and "h_marg t \<noteq> []"
  shows "result (synthesize ext t mzs jzs s) =
           draw_households ext
             (py_int (mean (map snd (groupby_level0_sum (replace_zero mzs (h_marg t))))))
             (h_pums t') (p_pums t') (household_freq pr) (h_constraint pr)
             (p_constraint pr) w s
         \<and> num_households_of (replace_zero 0.01 [((''cat1'', ''a''), 0), ((''cat2'', ''a''), 40)])
             = Inr 20
         \<and> py_round (mean [0.01, 40]) = 20"
proof -
  have sub: "h_marg_sub pr = replace_zero mzs (h_marg t)"
    using synthesize_prepare_Inr [OF assms(1)] by blast
  have "result (synthesize ext t mzs jzs s) =
           draw_households ext
             (py_int (mean (map snd (groupby_level0_sum (replace_zero mzs (h_marg t))))))
             (h_pums t') (p_pums t') (household_freq pr) (h_constraint pr)
             (p_constraint pr) w s"
    by (simp add: synthesize_after_prepare [OF assms(1,2)] sub
        num_households_of_nonempty [OF assms(3)])
  moreover have "num_households_of
      (replace_zero 0.01 [((''cat1'', ''a''), 0), ((''cat2'', ''a''), 40)]) = Inr 20"
    by (simp add: num_households_of_def groupby_level0_sum_def replace_zero_def
        replace_cell_def mean_two py_int_def Let_def)
  moreover have "py_round (mean [0.01, 40]) = 20"
    by (simp add: mean_two py_round_def Let_def)
  ultimately show ?thesis by simp
qed

theorem num_households_truncated_mean_witness:
  "result (synthesize (demo_ext True 5) (demo_tables ''1'' 40) 0.01 0.001 0) =
     Inr \<lparr>households = [\<lparr>hh_index = 0, hh_cells = [(''serialno'', ''1'')]\<rparr>],
          people = [\<lparr>hh_id = 0, p_cells = [(''serialno'', ''1'')]\<rparr>],
          people_chisq = 20, people_p = 1\<rparr>"
proof -
  have fit: "household_weights (demo_ext True 5) () () [(0, 0.001), (1, 2)] [(2, 1)]
      max_iterations = Inr ((), 0, 5)"
    by (simp add: demo_ext_def)
  have ne: "h_marg (demo_tables ''1'' 40) \<noteq> []"
    by (simp add: demo_tables_def)
  have n: "py_int (mean (map snd (groupby_level0_sum
      (replace_zero 0.01 (h_marg (demo_tables ''1'' 40)))))) = 20"
    by (simp add: demo_tables_def groupby_level0_sum_def replace_zero_def
        replace_cell_def mean_two py_int_def)
  have "result (synthesize (demo_ext True 5) (demo_tables ''1'' 40) 0.01 0.001 0) =
      draw_households (demo_ext True 5)
        (py_int (mean (map snd (groupby_level0_sum
           (replace_zero 0.01 (h_marg (demo_tables ''1'' 40)))))))
        [\<lparr>cat_id = 0, cells = [(''serialno'', ''1'')]\<rparr>]
        [\<lparr>cat_id = 2, cells = [(''serialno'', ''1'')]\<rparr>]
        () [(0, 0.001), (1, 2)] [(2, 1)] () 0"
    using num_households_truncated_mean [where ext = "demo_ext True 5"
        and t = "demo_tables ''1'' 40" and mzs = "1 / 100" and jzs = "1 / 1000" and s = 0
        and w = "()" and fq = 0 and iters = 5, OF demo_prepare] fit ne
    by simp
  then show ?thesis
    unfolding n by (simp add: demo_ext_def)
qed

text \<open>Totals 1, 2 and 2: the mean is 5/3, the code's count is 1, the rounded
  mean is 2.\<close>

theorem num_households_rounded_counterexample:
  "num_households_of (replace_zero 0.01
      [((''cat1'', ''a''), 1), ((''cat2'', ''a''), 2), ((''cat3'', ''a''), 2)]) = Inr 1
   \<and> py_round (mean (map snd (groupby_level0_sum (replace_zero 0.01
      [((''cat1'', ''a''), 1), ((''cat2'', ''a''), 2), ((''cat3'', ''a''), 2)])))) = 2"
  by (simp add: num_households_of_def groupby_level0_sum_def replace_zero_def
      replace_cell_def mean_def py_int_def py_round_def Let_def)


lemma Min_shift:
  fixes xs :: "int list"
  assumes "xs \<noteq> []"
  shows "Min (set (map (\<lambda>c. c + k) xs)) = Min (set xs) + k"
  using Min_add_commute [of "set xs" "\<lambda>x. x" k] assms by simp

text \<open>
  Claim C7, as amended. When the preparation succeeds, the household \<open>cat_id\<close>s
  are as before, every person \<open>cat_id\<close> of the person joint distribution and of
  the person sample is its old value plus (maximum household \<open>cat_id\<close> + 1), and
  the person constraint is indexed by the new ids. So the minimum person
  \<open>cat_id\<close> is the maximum household \<open>cat_id\<close> plus one plus the old minimum
  (plus one exactly when the person ids started at 0), and household and person
  ids are disjoint when the old person ids were not negative.
\<close>

theorem namespacer_shift:
  assumes "synthesize_prepare ext t mzs jzs = (Inr pr, t')"
  shows "h_jd t \<noteq> []
    \<and> map cat_id (h_jd t') = map cat_id (h_jd t)
    \<and> map cat_id (p_jd t')
        = map (\<lambda>c. c + (Max (set (map cat_id (h_jd t))) + 1)) (map cat_id (p_jd t))
    \<and> map cat_id (p_pums t')
        = map (\<lambda>c. c + (Max (set (map cat_id (h_jd t))) + 1)) (map cat_id (p_pums t))
    \<and> map fst (p_constraint pr) = map cat_id (p_jd t')
    \<and> (p_jd t \<noteq> [] \<longrightarrow>
         Min (set (map cat_id (p_jd t')))
           = Max (set (map cat_id (h_jd t'))) + 1 + Min (set (map cat_id (p_jd t))))
    \<and> ((\<forall>c \<in> set (map cat_id (p_jd t)) \<union> set (map cat_id (p_pums t)). 0 \<le> c) \<longrightarrow>
         set (map cat_id (h_jd t'))
           \<inter> (set (map cat_id (p_jd t')) \<union> set (map cat_id (p_pums t'))) = {})"
proof -
  from synthesize_prepare_Inr [OF assms] obtain m where
    m: "series_max (map cat_id (h_jd t)) = Some m"
    and t': "t' = namespace_tables (m + 1) (zero_guard_tables jzs t)"
    and pc: "map fst (p_constraint pr) = map cat_id (p_jd t')"
    by blast
  from series_max_Max [OF m] have ne: "h_jd t \<noteq> []"
    and mx: "m = Max (set (map cat_id (h_jd t)))" by auto
  have h: "map cat_id (h_jd t') = map cat_id (h_jd t)"
    by (simp add: t' namespace_tables_fields zero_guard_tables_fields cat_id_frequency_replace)
  have pj: "map cat_id (p_jd t') = map (\<lambda>c. c + (m + 1)) (map cat_id (p_jd t))"
    by (simp add: t' namespace_tables_fields zero_guard_tables_fields cat_id_add_cat_id
        cat_id_frequency_replace)
  have pp: "map cat_id (p_pums t') = map (\<lambda>c. c + (m + 1)) (map cat_id (p_pums t))"
    by (simp add: t' namespace_tables_fields zero_guard_tables_fields cat_id_add_cat_id)
  have mn: "Min (set (map cat_id (p_jd t'))) = m + 1 + Min (set (map cat_id (p_jd t)))"
    if "p_jd t \<noteq> []"
    unfolding pj using Min_shift [of "map cat_id (p_jd t)" "m + 1"] that by simp
  have le: "c \<le> m" if "c \<in> set (map cat_id (h_jd t))" for c
    unfolding mx using that by (intro Max_ge) auto
  have dj: "set (map cat_id (h_jd t'))
      \<inter> (set (map cat_id (p_jd t')) \<union> set (map cat_id (p_pums t'))) = {}"
    if nn: "\<forall>c \<in> set (map cat_id (p_jd t)) \<union> set (map cat_id (p_pums t)). 0 \<le> c"
  proof -
    have "m < c" if "c \<in> set (map cat_id (p_jd t')) \<union> set (map cat_id (p_pums t'))" for c
    proof -
      from that obtain d where "d \<in> set (map cat_id (p_jd t)) \<union> set (map cat_id (p_pums t))"
        and "c = d + (m + 1)"
        unfolding pj pp by auto
      with nn show ?thesis by fastforce
    qed
    with le show ?thesis unfolding h by fastforce
  qed
  show ?thesis
    using ne h pj pp pc mn dj unfolding h mx by blast
qed


theorem namespacer_shift_witness:
  "Min (set (map cat_id (p_jd (snd (synthesize_prepare (demo_ext True 5)
          (demo_tables ''1'' 40) 0.01 0.001)))))
     = Max (set (map cat_id (h_jd (snd (synthesize_prepare (demo_ext True 5)
          (demo_tables ''1'' 40) 0.01 0.001))))) + 1
   \<and> set (map cat_id (h_jd (snd (synthesize_prepare (demo_ext True 5)
          (demo_tables ''1'' 40) 0.01 0.001))))
       \<inter> (set (map cat_id (p_jd (snd (synthesize_prepare (demo_ext True 5)
          (demo_tables ''1'' 40) 0.01 0.001))))
          \<union> set (map cat_id (p_pums (snd (synthesize_prepare (demo_ext True 5)
          (demo_tables ''1'' 40) 0.01 0.001))))) = {}"
proof -
  have nn: "\<forall>c \<in> set (map cat_id (p_jd (demo_tables ''1'' 40)))
      \<union> set (map cat_id (p_pums (demo_tables ''1'' 40))). 0 \<le> c"
    by (simp add: demo_tables_def)
  have ne: "p_jd (demo_tables ''1'' 40) \<noteq> []"
    and mn: "Min (set (map cat_id (p_jd (demo_tables ''1'' 40)))) = 0"
    by (simp_all add: demo_tables_def)
  show ?thesis
    using namespacer_shift [where ext = "demo_ext True 5" and t = "demo_tables ''1'' 40"
        and mzs = "1 / 100" and jzs = "1 / 1000", OF demo_prepare] nn ne mn
    by (simp add: demo_prepare) (simp add: demo_tables_def)
qed

text \<open>Household ids 0 and 1, person ids 1 and 2: afterwards the person ids are 3
  and 4, and their minimum 3 is not 1 + 1.\<close>

theorem namespacer_minimum_counterexample:
  "Min (set (map cat_id (p_jd (tables_after (synthesize (demo_ext True 5)
      ((demo_tables ''1'' 40)
         \<lparr>p_jd := [\<lparr>cat_id = 1, frequency = 1\<rparr>, \<lparr>cat_id = 2, frequency = 3\<rparr>]\<rparr>)
      0.01 0.001 0))))) = 3
   \<and> Max (set (map cat_id (h_jd (tables_after (synthesize (demo_ext True 5)
      ((demo_tables ''1'' 40)
         \<lparr>p_jd := [\<lparr>cat_id = 1, frequency = 1\<rparr>, \<lparr>cat_id = 2, frequency = 3\<rparr>]\<rparr>)
      0.01 0.001 0))))) + 1 = 2"
  by (simp add: tables_after_synthesize synthesize_prepare_def demo_ext_def demo_tables_def
      replace_zero_def replace_cell_def zero_guard_tables_def frequency_replace_def
      set_index_def namespace_tables_def add_cat_id_def Let_def)

text \<open>
  Claim C8. The solver is called with \<open>max_iterations\<close> = 20000. When it reports
  20000 iterations, \<open>synthesize\<close> logs them at warning level and goes on: what it
  returns is what the drawer returns for the weights the solver gave (it raises
  only if the drawer does).
\<close>

theorem iteration_cap_is_warning:
  assumes "synthesize_prepare ext t mzs jzs = (Inr pr, t')"
    and "household_weights ext (household_freq pr) (person_freq pr)
           (h_constraint pr) (p_constraint pr) 20000 = Inr (w, fq, 20000)"
    and "h_marg t \<noteq> []"
  shows "iterations_log (synthesize ext t mzs jzs s) = Some (WARNING, 20000)
    \<and> result (synthesize ext t mzs jzs s) =
        draw_households ext
          (py_int (mean (map snd (groupby_level0_sum (replace_zero mzs (h_marg t))))))
          (h_pums t') (p_pums t') (household_freq pr) (h_constraint pr)
          (p_constraint pr) w s"
proof -
  have sub: "h_marg_sub pr = replace_zero mzs (h_marg t)"
    using synthesize_prepare_Inr [OF assms(1)] by blast
  have fit: "household_weights ext (household_freq pr) (person_freq pr)
           (h_constraint pr) (p_constraint pr) max_iterations = Inr (w, fq, 20000)"
    using assms(2) by (simp add: max_iterations_def)
  show ?thesis
    by (simp add: synthesize_after_prepare [OF assms(1) fit] sub
        num_households_of_nonempty [OF assms(3)] log_iterations_def)
qed

theorem iteration_cap_is_warning_witness:
  "iterations_log (synthesize (demo_ext True 20000) (demo_tables ''1'' 40) 0.01 0.001 0)
     = Some (WARNING, 20000)
   \<and> result (synthesize (demo_ext True 20000) (demo_tables ''1'' 40) 0.01 0.001 0) =
     Inr \<lparr>households = [\<lparr>hh_index = 0, hh_cells = [(''serialno'', ''1'')]\<rparr>],
          people = [\<lparr>hh_id = 0, p_cells = [(''serialno'', ''1'')]\<rparr>],
          people_chisq = 20, people_p = 1\<rparr>"
proof -
  have fit: "household_weights (demo_ext True 20000) () () [(0, 0.001), (1, 2)] [(2, 1)]
      20000 = Inr ((), 0, 20000)"
    by (simp add: demo_ext_def)
  have ne: "h_marg (demo_tables ''1'' 40) \<noteq> []"
    by (simp add: demo_tables_def)
  have n: "py_int (mean (map snd (groupby_level0_sum
      (replace_zero 0.01 (h_marg (demo_tables ''1'' 40)))))) = 20"
    by (simp add: demo_tables_def groupby_level0_sum_def replace_zero_def
        replace_cell_def mean_two py_int_def)
  have "iterations_log (synthesize (demo_ext True 20000) (demo_tables ''1'' 40) 0.01 0.001 0)
      = Some (WARNING, 20000)
    \<and> result (synthesize (demo_ext True 20000) (demo_tables ''1'' 40) 0.01 0.001 0) =
      draw_households (demo_ext True 20000)
        (py_int (mean (map snd (groupby_level0_sum
           (replace_zero 0.01 (h_marg (demo_tables ''1'' 40)))))))
        [\<lparr>cat_id = 0, cells = [(''serialno'', ''1'')]\<rparr>]
        [\<lparr>cat_id = 2, cells = [(''serialno'', ''1'')]\<rparr>]
        () [(0, 0.001), (1, 2)] [(2, 1)] () 0"
    using iteration_cap_is_warning [where ext = "demo_ext True 20000"
        and t = "demo_tables ''1'' 40" and mzs = "1 / 100" and jzs = "1 / 1000" and s = 0
        and w = "()" and fq = 0, OF demo_prepare] fit ne
    by simp
  then show ?thesis
    unfolding n by (simp add: demo_ext_def)
qed

lemma synthesize_Inr_prepare:
  assumes "result (synthesize ext t mzs jzs s) = Inr r"
  shows "\<exists>pr t'. synthesize_prepare ext t mzs jzs = (Inr pr, t')"
proof (cases "synthesize_prepare ext t mzs jzs")
  case (Pair a t')
  with assms show ?thesis
    by (cases a) (auto simp: synthesize_def)
qed

lemma add_cat_id_0: "add_cat_id 0 rows = rows"
  by (simp add: add_cat_id_def)

text \<open>
  Claim C9, as amended. Of the caller's tables, \<open>synthesize\<close> leaves the two
  marginals and the household sample as they were. It overwrites the \<open>frequency\<close>
  column of both joint distributions with the zero-guarded one, and it adds one
  and the same offset to the \<open>cat_id\<close> of the person joint distribution and of
  the person sample: maximum household \<open>cat_id\<close> + 1 once line 59 is reached (so
  whenever the call returns), 0 when it raised before.
\<close>

theorem synthesize_writes_tables:
  "h_marg (tables_after (synthesize ext t mzs jzs s)) = h_marg t
   \<and> p_marg (tables_after (synthesize ext t mzs jzs s)) = p_marg t
   \<and> h_pums (tables_after (synthesize ext t mzs jzs s)) = h_pums t
   \<and> h_jd (tables_after (synthesize ext t mzs jzs s)) = frequency_replace jzs (h_jd t)
   \<and> (\<exists>k. (k = 0 \<or> k = Max (set (map cat_id (h_jd t))) + 1)
         \<and> p_jd (tables_after (synthesize ext t mzs jzs s))
             = add_cat_id k (frequency_replace jzs (p_jd t))
         \<and> p_pums (tables_after (synthesize ext t mzs jzs s)) = add_cat_id k (p_pums t))
   \<and> (\<forall>r. result (synthesize ext t mzs jzs s) = Inr r \<longrightarrow>
         p_jd (tables_after (synthesize ext t mzs jzs s))
           = add_cat_id (Max (set (map cat_id (h_jd t))) + 1) (frequency_replace jzs (p_jd t))
         \<and> p_pums (tables_after (synthesize ext t mzs jzs s))
           = add_cat_id (Max (set (map cat_id (h_jd t))) + 1) (p_pums t))"
proof -
  let ?T = "tables_after (synthesize ext t mzs jzs s)"
  have T: "?T = snd (synthesize_prepare ext t mzs jzs)"
    by (rule tables_after_synthesize)
  consider (zg) "?T = zero_guard_tables jzs t"
    | (ns) m where "series_max (map cat_id (h_jd t)) = Some m"
        "?T = namespace_tables (m + 1) (zero_guard_tables jzs t)"
    using synthesize_prepare_tables [of ext t mzs jzs] unfolding T by blast
  then have frame: "h_marg ?T = h_marg t \<and> p_marg ?T = p_marg t \<and> h_pums ?T = h_pums t
      \<and> h_jd ?T = frequency_replace jzs (h_jd t)
      \<and> (\<exists>k. (k = 0 \<or> k = Max (set (map cat_id (h_jd t))) + 1)
         \<and> p_jd ?T = add_cat_id k (frequency_replace jzs (p_jd t))
         \<and> p_pums ?T = add_cat_id k (p_pums t))"
  proof cases
    case zg
    then show ?thesis
      by (simp add: zero_guard_tables_fields) (rule exI [of _ 0], simp add: add_cat_id_0)
  next
    case ns
    from series_max_Max [OF ns(1)] have "m = Max (set (map cat_id (h_jd t)))" by simp
    with ns(2) show ?thesis
      by (auto simp: zero_guard_tables_fields namespace_tables_fields)
  qed
  have ok: "p_jd ?T
           = add_cat_id (Max (set (map cat_id (h_jd t))) + 1) (frequency_replace jzs (p_jd t))
         \<and> p_pums ?T = add_cat_id (Max (set (map cat_id (h_jd t))) + 1) (p_pums t)"
    if res: "result (synthesize ext t mzs jzs s) = Inr r" for r
  proof -
    obtain pr t' where p: "synthesize_prepare ext t mzs jzs = (Inr pr, t')"
      using synthesize_Inr_prepare [OF res] by blast
    from synthesize_prepare_Inr [OF p] obtain m where
      m: "series_max (map cat_id (h_jd t)) = Some m"
      and t': "t' = namespace_tables (m + 1) (zero_guard_tables jzs t)" by blast
    from series_max_Max [OF m] have "m = Max (set (map cat_id (h_jd t)))" by simp
    then show ?thesis
      unfolding T p snd_conv t' by (simp add: zero_guard_tables_fields namespace_tables_fields)
  qed
  show ?thesis using frame ok by blast
qed

theorem synthesize_writes_tables_witness:
  "p_jd (tables_after (synthesize (demo_ext True 5) (demo_tables ''1'' 40) 0.01 0.001 0))
     = [\<lparr>cat_id = 2, frequency = 1\<rparr>]
   \<and> p_pums (tables_after (synthesize (demo_ext True 5) (demo_tables ''1'' 40) 0.01 0.001 0))
     = [\<lparr>cat_id = 2, cells = [(''serialno'', ''1'')]\<rparr>]
   \<and> h_marg (tables_after (synthesize (demo_ext True 5) (demo_tables ''1'' 40) 0.01 0.001 0))
     = [((''cat1'', ''a''), 0), ((''cat2'', ''a''), 40)]"
proof -
  have r: "result (synthesize (demo_ext True 5) (demo_tables ''1'' 40) 0.01 0.001 0) =
     Inr \<lparr>households = [\<lparr>hh_index = 0, hh_cells = [(''serialno'', ''1'')]\<rparr>],
          people = [\<lparr>hh_id = 0, p_cells = [(''serialno'', ''1'')]\<rparr>],
          people_chisq = 20, people_p = 1\<rparr>"
    by (simp add: synthesize_def demo_prepare)
      (simp add: demo_ext_def num_households_of_def groupby_level0_sum_def mean_two
        py_int_def max_iterations_def)
  show ?thesis
    using synthesize_writes_tables [of "demo_ext True 5" "demo_tables ''1'' 40" "0.01" "0.001" 0]
    unfolding r
    by (simp add: demo_tables_def add_cat_id_def frequency_replace_def replace_cell_def)
qed

text \<open>One call on the demo tables: the household frequencies 0, 2 have become
  0.001, 2 and the person \<open>cat_id\<close> 0 has become 2 in both person tables.\<close>

theorem synthesize_writes_tables_counterexample:
  "map frequency (h_jd (demo_tables ''1'' 40)) = [0, 2]
   \<and> map frequency (h_jd (tables_after
        (synthesize (demo_ext True 5) (demo_tables ''1'' 40) 0.01 0.001 0))) = [0.001, 2]
   \<and> map cat_id (p_jd (demo_tables ''1'' 40)) = [0]
   \<and> map cat_id (p_jd (tables_after
        (synthesize (demo_ext True 5) (demo_tables ''1'' 40) 0.01 0.001 0))) = [2]
   \<and> map cat_id (p_pums (demo_tables ''1'' 40)) = [0]
   \<and> map cat_id (p_pums (tables_after
        (synthesize (demo_ext True 5) (demo_tables ''1'' 40) 0.01 0.001 0))) = [2]"
  by (simp add: tables_after_synthesize demo_prepare) (simp add: demo_tables_def)

section \<open>The drivers: helper facts\<close>

lemma hh_index_set_column: "map hh_index (set_column c v hh) = map hh_index hh"
  by (simp add: set_column_def)

lemma hh_index_append_location:
  "map hh_index (append_location_identifiers g hh) = map hh_index hh"
proof -
  have "map hh_index (fold (\<lambda>geog_cat hh'. case map_of g geog_cat of
                              Some v \<Rightarrow> set_column geog_cat v hh' | None \<Rightarrow> hh') ks hh)
        = map hh_index hh" for ks
    by (induction ks arbitrary: hh) (auto simp: hh_index_set_column split: option.splits)
  then show ?thesis by (simp add: append_location_identifiers_def)
qed

lemma append_location_Nil: "append_location_identifiers g hh = [] \<longleftrightarrow> hh = []"
proof -
  have "length (map hh_index (append_location_identifiers g hh)) = length (map hh_index hh)"
    by (simp only: hh_index_append_location)
  then have "length (append_location_identifiers g hh) = length hh" by simp
  then show ?thesis
    by (cases hh; cases "append_location_identifiers g hh") auto
qed

lemma synthesize_result_drawn:
  assumes "result (synthesize ext t mzs jzs s) = Inr r"
  shows "\<exists>n hp pp hf hc pc w. draw_households ext n hp pp hf hc pc w s = Inr r"
  using assms
  by (auto simp: synthesize_def split: sum.splits prod.splits) blast

lemma index_from_cong:
  "map hh_index hh' = map hh_index hh \<Longrightarrow> index_from s hh \<Longrightarrow> index_from s hh'"
  by (cases hh; cases hh') (auto simp: index_from_def)

lemma index_from_shift:
  assumes "index_from 0 hh"
  shows "index_from s (map (\<lambda>h. h\<lparr>hh_index := hh_index h + s\<rparr>) hh)"
proof -
  have "sorted_wrt (<) (map hh_index hh)" using assms by (simp add: index_from_def)
  then have "sorted_wrt (<) (map (\<lambda>h. hh_index h + s) hh)"
    by (simp add: sorted_wrt_map)
  then show ?thesis
    using assms by (cases hh) (auto simp: index_from_def comp_def)
qed

lemma strict_sorted_le_last:
  fixes xs :: "int list"
  shows "sorted_wrt (<) xs \<Longrightarrow> y \<in> set xs \<Longrightarrow> y \<le> last xs"
proof (induction xs)
  case Nil
  then show ?case by simp
next
  case (Cons a xs)
  show ?case
  proof (cases "xs = []")
    case True
    with Cons.prems show ?thesis by simp
  next
    case False
    then have l: "last xs \<in> set xs" by simp
    from Cons.prems(1) have "a < last xs" using l by simp
    moreover have "y \<le> last xs" if "y \<in> set xs"
      using Cons.IH that Cons.prems(1) by simp
    ultimately show ?thesis using Cons.prems(2) False by auto
  qed
qed

lemma index_from_bounds:
  assumes "index_from s hh" and "h \<in> set hh"
  shows "s \<le> hh_index h \<and> hh_index h \<le> hh_index (last hh)"
proof -
  from assms obtain x xs where hh: "hh = x # xs" by (cases hh) auto
  with assms have s: "hh_index x = s" and srt: "sorted_wrt (<) (map hh_index hh)"
    by (auto simp: index_from_def)
  have "s \<le> hh_index h"
    using srt hh assms(2) s by auto
  moreover have "hh_index h \<le> last (map hh_index hh)"
    using strict_sorted_le_last [OF srt, of "hh_index h"] assms(2) by simp
  moreover have "last (map hh_index hh) = hh_index (last hh)"
    using hh by (simp only: last_map list.distinct not_False_eq_True)
  ultimately show ?thesis by simp
qed


lemma below_one_past_max: "x \<in> set X \<Longrightarrow> hh_index x < one_past_max X"
proof -
  assume x: "x \<in> set X"
  then have "hh_index x \<le> Max (set (map hh_index X))" by (intro Max_ge) auto
  with x show ?thesis by (auto simp: one_past_max_def)
qed

lemma numbered_step:
  assumes "numbered hl s" and "index_from s hh"
  shows "numbered (hl @ [hh]) (next_index_start hh s)"
proof -
  let ?X = "concat hl"
  from assms(1) have st: "stitched hl" and srt: "sorted_wrt (<) (map hh_index ?X)"
    and s: "s = one_past_max ?X" by (auto simp: numbered_def)
  have lt: "hh_index x < hh_index y" if "x \<in> set ?X" "y \<in> set hh" for x y
    using below_one_past_max [OF that(1)] index_from_bounds [OF assms(2) that(2)] s by simp
  have srt': "sorted_wrt (<) (map hh_index (?X @ hh))"
    using srt assms(2) lt by (auto simp: sorted_wrt_append index_from_def)
  have nxt: "one_past_max (?X @ hh) = next_index_start hh s"
  proof (cases "hh = []")
    case True
    then show ?thesis by (simp add: next_index_start_def s)
  next
    case False
    have "Max (set (map hh_index (?X @ hh))) = hh_index (last hh)"
    proof (rule Max_eqI)
      show "finite (set (map hh_index (?X @ hh)))" by simp
      show "hh_index (last hh) \<in> set (map hh_index (?X @ hh))" using False by simp
      fix y assume "y \<in> set (map hh_index (?X @ hh))"
      then consider x where "x \<in> set ?X" "y = hh_index x"
        | h where "h \<in> set hh" "y = hh_index h" by auto
      then show "y \<le> hh_index (last hh)"
      proof cases
        case 1
        with lt [of x "last hh"] False show ?thesis by simp
      next
        case 2
        with index_from_bounds [OF assms(2), of h] show ?thesis by simp
      qed
    qed
    with False show ?thesis by (simp add: one_past_max_def next_index_start_def)
  qed
  have "index_from (one_past_max (concat (take k (hl @ [hh])))) ((hl @ [hh]) ! k)"
    if "k < length (hl @ [hh])" for k
  proof (cases "k < length hl")
    case True
    with st show ?thesis by (simp add: stitched_def nth_append)
  next
    case False
    with that have "k = length hl" by simp
    with assms(2) s show ?thesis by simp
  qed
  then have "stitched (hl @ [hh])" by (simp only: stitched_def) blast
  with srt' nxt show ?thesis by (simp add: numbered_def)
qed

lemma numbered_Nil: "numbered [] 0"
  by (simp add: numbered_def stitched_def one_past_max_def)

text \<open>An invariant of the loop of lines 120--162.\<close>

lemma synthesize_all_loop_invariant:
  assumes "synthesize_all_loop ext recipe num_geogs mzs jzs gs cnt a = Inr a'"
    and "P a"
    and step: "\<And>g j a t r key. g \<in> set gs \<Longrightarrow> P a \<Longrightarrow> fetch_tables recipe g = Inr t \<Longrightarrow>
          result (synthesize (ext j) t mzs jzs (hh_index_start a)) = Inr r \<Longrightarrow>
          block_group_id g = Inr key \<Longrightarrow>
          P \<lparr>hh_list = hh_list a @ [append_location_identifiers g (households r)],
             people_list = people_list a @ [people r],
             fit_quality = AList.update key (people_chisq r, people_p r) (fit_quality a),
             hh_index_start = next_index_start (append_location_identifiers g (households r))
                                (hh_index_start a)\<rparr>"
  shows "P a'"
  using assms(1,2) step
proof (induction gs arbitrary: cnt a)
  case Nil
  then show ?case by simp
next
  case (Cons g gs)
  from Cons.prems(1) obtain t r key where
    t: "fetch_tables recipe g = Inr t"
    and r: "result (synthesize (ext cnt) t mzs jzs (hh_index_start a)) = Inr r"
    and key: "block_group_id g = Inr key"
    by (auto split: sum.splits simp: Let_def)
  let ?a = "\<lparr>hh_list = hh_list a @ [append_location_identifiers g (households r)],
             people_list = people_list a @ [people r],
             fit_quality = AList.update key (people_chisq r, people_p r) (fit_quality a),
             hh_index_start = next_index_start (append_location_identifiers g (households r))
                                (hh_index_start a)\<rparr>"
  have P: "P ?a"
    using Cons.prems(3) [OF _ Cons.prems(2) t r key] by simp
  show ?case
  proof (cases "cap_reached num_geogs (cnt + 1)")
    case True
    with Cons.prems(1) t r key have "a' = ?a" by (simp add: Let_def)
    with P show ?thesis by simp
  next
    case False
    with Cons.prems(1) t r key
    have "synthesize_all_loop ext recipe num_geogs mzs jzs gs (cnt + 1) ?a = Inr a'"
      by (simp add: Let_def)
    from Cons.IH [OF this P] Cons.prems(3) show ?thesis by simp
  qed
qed

text \<open>An invariant of the loop of lines 286--311.\<close>

lemma process_results_invariant:
  assumes "process_results gs i fs a = Inr a'"
    and "P a"
    and failed: "\<And>a e. P a \<Longrightarrow> P (a\<lparr>printed := printed a @ [e]\<rparr>)"
    and step: "\<And>g a r key. g \<in> set gs \<Longrightarrow> P a \<Longrightarrow> Inr r \<in> set fs \<Longrightarrow>
          block_group_id g = Inr key \<Longrightarrow>
          P (a\<lparr>hh_list := hh_list a @
                   [map (\<lambda>h. h\<lparr>hh_index := hh_index h + hh_index_start a\<rparr>)
                      (append_location_identifiers g (households r))],
               people_list := people_list a @
                   [map (\<lambda>p. p\<lparr>hh_id := hh_id p + hh_index_start a\<rparr>) (people r)],
               fit_quality := AList.update key (people_chisq r, people_p r) (fit_quality a),
               hh_index_start := next_index_start
                   (map (\<lambda>h. h\<lparr>hh_index := hh_index h + hh_index_start a\<rparr>)
                      (append_location_identifiers g (households r)))
                   (hh_index_start a)\<rparr>)"
  shows "P a'"
  using assms(1,2) step
proof (induction fs arbitrary: i a)
  case Nil
  then show ?case by simp
next
  case (Cons f fs)
  show ?case
  proof (cases f)
    case (Inl e)
    with Cons.prems(1)
    have "process_results gs (i + 1) fs (a\<lparr>printed := printed a @ [e]\<rparr>) = Inr a'" by simp
    from Cons.IH [OF this failed [OF Cons.prems(2)]] Cons.prems(3) show ?thesis by simp
  next
    case (Inr r)
    with Cons.prems(1) have i: "i < length gs" by (auto split: if_splits)
    with Cons.prems(1) Inr obtain key where key: "block_group_id (gs ! i) = Inr key"
      by (auto split: sum.splits simp: Let_def)
    let ?g = "gs ! i"
    let ?a = "a\<lparr>hh_list := hh_list a @
                   [map (\<lambda>h. h\<lparr>hh_index := hh_index h + hh_index_start a\<rparr>)
                      (append_location_identifiers ?g (households r))],
               people_list := people_list a @
                   [map (\<lambda>p. p\<lparr>hh_id := hh_id p + hh_index_start a\<rparr>) (people r)],
               fit_quality := AList.update key (people_chisq r, people_p r) (fit_quality a),
               hh_index_start := next_index_start
                   (map (\<lambda>h. h\<lparr>hh_index := hh_index h + hh_index_start a\<rparr>)
                      (append_location_identifiers ?g (households r)))
                   (hh_index_start a)\<rparr>"
    have "process_results gs (i + 1) fs ?a = Inr a'"
      using Cons.prems(1) Inr i key by (simp add: Let_def)
    moreover have "P ?a"
      using Cons.prems(3) [OF _ Cons.prems(2) _ key, of r] i Inr by simp
    ultimately show ?thesis
      using Cons.IH [of "i + 1" ?a] Cons.prems(3) by simp
  qed
qed


lemma concat_results_Inr:
  assumes "concat_results a = Inr (hh, pp, fq)"
  shows "hh = concat (hh_list a) \<and> pp = concat (people_list a) \<and> fq = fit_quality a
         \<and> hh_list a \<noteq> []"
  using assms by (auto simp: concat_results_def pd_concat_def split: if_splits)

lemma synthesize_all_Inr:
  assumes "synthesize_all ext recipe num_geogs indexes mzs jzs = Inr (hh, pp, fq)"
  shows "\<exists>a. synthesize_all_lists ext recipe num_geogs indexes mzs jzs = Inr a
           \<and> hh = concat (hh_list a) \<and> pp = concat (people_list a) \<and> fq = fit_quality a"
  using assms concat_results_Inr
  by (fastforce simp: synthesize_all_def split: sum.splits)

lemma synthesize_all_in_parallel_Inr:
  assumes "synthesize_all_in_parallel ext order recipe num_geogs indexes mzs jzs
             = Inr ((hh, pp, fq), out)"
  shows "\<exists>a. synthesize_all_in_parallel_lists ext order recipe num_geogs indexes mzs jzs = Inr a
           \<and> hh = concat (hh_list a) \<and> pp = concat (people_list a) \<and> fq = fit_quality a
           \<and> out = printed a"
  using assms concat_results_Inr
  by (fastforce simp: synthesize_all_in_parallel_def split: sum.splits)

lemma submit_synthesize_drawn:
  assumes "Inr r \<in> set (submit_synthesize ext finished_args)"
  shows "\<exists>j n hp pp hf hc pc w. draw_households (ext j) n hp pp hf hc pc w 0 = Inr r"
proof -
  from assms obtain j t mzs jzs where "result (synthesize (ext j) t mzs jzs 0) = Inr r"
    by (auto simp: submit_synthesize_def)
  from synthesize_result_drawn [OF this] show ?thesis by blast
qed

lemma parallel_lists_Inr:
  assumes "synthesize_all_in_parallel_lists ext order recipe num_geogs indexes mzs jzs = Inr a"
  shows "\<exists>gs finished_args.
           process_results gs 0 (submit_synthesize ext finished_args) par_acc0 = Inr a
           \<and> set gs \<subseteq> set (resolve_indexes recipe indexes)"
proof -
  have sub: "set (submitted ng c xs) \<subseteq> set xs" for ng c and xs :: "'a geog list"
    by (induction xs arbitrary: c) auto
  from assms obtain finished_args where
    "process_results (submitted num_geogs 0 (resolve_indexes recipe indexes)) 0
       (submit_synthesize ext finished_args) par_acc0 = Inr a"
    by (auto simp: synthesize_all_in_parallel_lists_def parallel_futures_def Let_def
        split: sum.splits)
  with sub [of num_geogs 0 "resolve_indexes recipe indexes"] show ?thesis by blast
qed

lemma sequential_numbered:
  assumes "\<forall>j. drawer_numbers_from_start (ext j)"
    and "synthesize_all_lists ext recipe num_geogs indexes mzs jzs = Inr a"
  shows "numbered (hh_list a) (hh_index_start a)"
proof (rule synthesize_all_loop_invariant
    [where P = "\<lambda>a. numbered (hh_list a) (hh_index_start a)",
      OF assms(2) [unfolded synthesize_all_lists_def]])
  show "numbered (hh_list acc0) (hh_index_start acc0)"
    by (simp add: acc0_def numbered_Nil)
next
  fix g j and a :: "'a acc" and t r key
  assume P: "numbered (hh_list a) (hh_index_start a)"
    and r: "result (synthesize (ext j) t mzs jzs (hh_index_start a)) = Inr r"
  from synthesize_result_drawn [OF r] assms(1)
  have "index_from (hh_index_start a) (households r)"
    by (auto simp: drawer_numbers_from_start_def)
  then have "index_from (hh_index_start a) (append_location_identifiers g (households r))"
    by (rule index_from_cong [OF hh_index_append_location])
  from numbered_step [OF P this]
  show "numbered
     (hh_list \<lparr>hh_list = hh_list a @ [append_location_identifiers g (households r)],
         people_list = people_list a @ [people r],
         fit_quality = AList.update key (people_chisq r, people_p r) (fit_quality a),
         hh_index_start = next_index_start (append_location_identifiers g (households r))
                            (hh_index_start a)\<rparr>)
     (hh_index_start \<lparr>hh_list = hh_list a @ [append_location_identifiers g (households r)],
         people_list = people_list a @ [people r],
         fit_quality = AList.update key (people_chisq r, people_p r) (fit_quality a),
         hh_index_start = next_index_start (append_location_identifiers g (households r))
                            (hh_index_start a)\<rparr>)"
    by simp
qed

lemma parallel_numbered:
  assumes "\<forall>j. drawer_numbers_from_start (ext j)"
    and "synthesize_all_in_parallel_lists ext order recipe num_geogs indexes mzs jzs = Inr a"
  shows "numbered (hh_list a) (hh_index_start a)"
proof -
  from parallel_lists_Inr [OF assms(2)] obtain gs finished_args where
    run: "process_results gs 0 (submit_synthesize ext finished_args) par_acc0 = Inr a"
    by blast
  show ?thesis
  proof (rule process_results_invariant
      [where P = "\<lambda>a. numbered (hh_list a) (hh_index_start a)", OF run])
    show "numbered (hh_list par_acc0) (hh_index_start par_acc0)"
      by (simp add: par_acc0_def numbered_Nil)
  next
    fix a :: "'a par_acc" and e
    assume "numbered (hh_list a) (hh_index_start a)"
    then show "numbered (hh_list (a\<lparr>printed := printed a @ [e]\<rparr>))
        (hh_index_start (a\<lparr>printed := printed a @ [e]\<rparr>))" by simp
  next
    fix g and a :: "'a par_acc" and r key
    assume P: "numbered (hh_list a) (hh_index_start a)"
      and r: "Inr r \<in> set (submit_synthesize ext finished_args)"
    from submit_synthesize_drawn [OF r] assms(1)
    have "index_from 0 (households r)"
      by (auto simp: drawer_numbers_from_start_def)
    then have "index_from 0 (append_location_identifiers g (households r))"
      by (rule index_from_cong [OF hh_index_append_location])
    from numbered_step [OF P index_from_shift [OF this]]
    show "numbered
       (hh_list (a\<lparr>hh_list := hh_list a @
                   [map (\<lambda>h. h\<lparr>hh_index := hh_index h + hh_index_start a\<rparr>)
                      (append_location_identifiers g (households r))],
               people_list := people_list a @
                   [map (\<lambda>p. p\<lparr>hh_id := hh_id p + hh_index_start a\<rparr>) (people r)],
               fit_quality := AList.update key (people_chisq r, people_p r) (fit_quality a),
               hh_index_start := next_index_start
                   (map (\<lambda>h. h\<lparr>hh_index := hh_index h + hh_index_start a\<rparr>)
                      (append_location_identifiers g (households r)))
                   (hh_index_start a)\<rparr>))
       (hh_index_start (a\<lparr>hh_list := hh_list a @
                   [map (\<lambda>h. h\<lparr>hh_index := hh_index h + hh_index_start a\<rparr>)
                      (append_location_identifiers g (households r))],
               people_list := people_list a @
                   [map (\<lambda>p. p\<lparr>hh_id := hh_id p + hh_index_start a\<rparr>) (people r)],
               fit_quality := AList.update key (people_chisq r, people_p r) (fit_quality a),
               hh_index_start := next_index_start
                   (map (\<lambda>h. h\<lparr>hh_index := hh_index h + hh_index_start a\<rparr>)
                      (append_location_identifiers g (households r)))
                   (hh_index_start a)\<rparr>))"
      by simp
  qed
qed

text \<open>
  Claim C3. Let every call of the drawer number its households upward from the
  \<open>hh_index_start\<close> it is given. Then in a run of either driver that returns, each
  geography's table is numbered upward from one past the maximum household id of
  all tables stitched before it (0 for the first), and the ids of the concatenated
  household table increase strictly. In the parallel driver this holds for every
  completion order.
\<close>

theorem household_ids_stitched:
  assumes "\<forall>j. drawer_numbers_from_start (ext j)"
  shows "(synthesize_all_lists ext recipe num_geogs indexes mzs jzs = Inr a \<longrightarrow>
            stitched (hh_list a) \<and> sorted_wrt (<) (map hh_index (concat (hh_list a))))
       \<and> (synthesize_all ext recipe num_geogs indexes mzs jzs = Inr (hh, pp, fq) \<longrightarrow>
            sorted_wrt (<) (map hh_index hh))
       \<and> (synthesize_all_in_parallel_lists ext order recipe num_geogs indexes mzs jzs = Inr b
            \<longrightarrow> stitched (hh_list b) \<and> sorted_wrt (<) (map hh_index (concat (hh_list b))))
       \<and> (synthesize_all_in_parallel ext order recipe num_geogs indexes mzs jzs
            = Inr ((hh', pp', fq'), out) \<longrightarrow> sorted_wrt (<) (map hh_index hh'))"
proof -
  have 1: "stitched (hh_list a) \<and> sorted_wrt (<) (map hh_index (concat (hh_list a)))"
    if "synthesize_all_lists ext recipe num_geogs indexes mzs jzs = Inr a" for a
    using sequential_numbered [OF assms that] by (simp add: numbered_def)
  have 2: "stitched (hh_list b) \<and> sorted_wrt (<) (map hh_index (concat (hh_list b)))"
    if "synthesize_all_in_parallel_lists ext order recipe num_geogs indexes mzs jzs = Inr b"
    for b
    using parallel_numbered [OF assms that] by (simp add: numbered_def)
  have 3: "sorted_wrt (<) (map hh_index hh)"
    if "synthesize_all ext recipe num_geogs indexes mzs jzs = Inr (hh, pp, fq)"
    using synthesize_all_Inr [OF that] 1 by blast
  have 4: "sorted_wrt (<) (map hh_index hh')"
    if "synthesize_all_in_parallel ext order recipe num_geogs indexes mzs jzs
            = Inr ((hh', pp', fq'), out)"
    using synthesize_all_in_parallel_Inr [OF that] 2 by blast
  from 1 2 3 4 show ?thesis by blast
qed


lemma append_location_cells:
  assumes "h \<in> set (append_location_identifiers g hh)" and "map_of g c = Some v"
  shows "map_of (hh_cells h) c = Some v"
proof -
  let ?F = "\<lambda>geog_cat hh'. case map_of g geog_cat of
                              Some v \<Rightarrow> set_column geog_cat v hh' | None \<Rightarrow> hh'"
  have gen: "\<forall>h \<in> set (fold ?F ks hh). \<forall>c \<in> S \<union> set ks. map_of (hh_cells h) c = map_of g c"
    if "\<forall>h \<in> set hh. \<forall>c \<in> S. map_of (hh_cells h) c = map_of g c"
      and "\<forall>k \<in> set ks. map_of g k \<noteq> None" for ks S and hh :: "'a household list"
    using that
  proof (induction ks arbitrary: hh S)
    case Nil
    then show ?case by simp
  next
    case (Cons k ks)
    from Cons.prems(2) obtain w where w: "map_of g k = Some w" by auto
    have "\<forall>h \<in> set (?F k hh). \<forall>c \<in> S \<union> {k}. map_of (hh_cells h) c = map_of g c"
      using Cons.prems(1) w by (auto simp: set_column_def update_conv')
    from Cons.IH [OF this] Cons.prems(2) show ?case by simp
  qed
  have "\<forall>k \<in> set (map fst g). map_of g k \<noteq> None"
    by (auto simp: map_of_eq_None_iff)
  from gen [of hh "{}" "map fst g"] this
  have "\<forall>h \<in> set (append_location_identifiers g hh). \<forall>c \<in> set (map fst g).
          map_of (hh_cells h) c = map_of g c"
    by (simp add: append_location_identifiers_def)
  moreover from assms(2) have "c \<in> set (map fst g)"
    by (metis map_of_eq_None_iff option.distinct(1) set_map)
  ultimately have "map_of (hh_cells h) c = map_of g c"
    using assms(1) by blast
  with assms(2) show ?thesis by simp
qed

lemma sequential_linked:
  assumes "\<forall>j. drawer_links_people (ext j)"
    and "synthesize_all_lists ext recipe num_geogs indexes mzs jzs = Inr a"
  shows "\<forall>p \<in> set (concat (people_list a)). hh_id p \<in> set (map hh_index (concat (hh_list a)))"
proof (rule synthesize_all_loop_invariant
    [where P = "\<lambda>a. \<forall>p \<in> set (concat (people_list a)).
                      hh_id p \<in> set (map hh_index (concat (hh_list a)))",
      OF assms(2) [unfolded synthesize_all_lists_def]])
  show "\<forall>p \<in> set (concat (people_list acc0)).
      hh_id p \<in> set (map hh_index (concat (hh_list acc0)))"
    by (simp add: acc0_def)
next
  fix g j and a :: "'a acc" and t r key
  assume P: "\<forall>p \<in> set (concat (people_list a)).
      hh_id p \<in> set (map hh_index (concat (hh_list a)))"
    and r: "result (synthesize (ext j) t mzs jzs (hh_index_start a)) = Inr r"
  from synthesize_result_drawn [OF r] assms(1)
  have "\<forall>p \<in> set (people r). hh_id p \<in> set (map hh_index (households r))"
    unfolding drawer_links_people_def by blast
  then have "\<forall>p \<in> set (people r).
      hh_id p \<in> set (map hh_index (append_location_identifiers g (households r)))"
    by (simp only: hh_index_append_location)
  with P show "\<forall>p \<in> set (concat (people_list
        \<lparr>hh_list = hh_list a @ [append_location_identifiers g (households r)],
         people_list = people_list a @ [people r],
         fit_quality = AList.update key (people_chisq r, people_p r) (fit_quality a),
         hh_index_start = next_index_start (append_location_identifiers g (households r))
                            (hh_index_start a)\<rparr>)).
      hh_id p \<in> set (map hh_index (concat (hh_list
        \<lparr>hh_list = hh_list a @ [append_location_identifiers g (households r)],
         people_list = people_list a @ [people r],
         fit_quality = AList.update key (people_chisq r, people_p r) (fit_quality a),
         hh_index_start = next_index_start (append_location_identifiers g (households r))
                            (hh_index_start a)\<rparr>)))"
    by auto
qed

lemma parallel_linked:
  assumes "\<forall>j. drawer_links_people (ext j)"
    and "synthesize_all_in_parallel_lists ext order recipe num_geogs indexes mzs jzs = Inr a"
  shows "\<forall>p \<in> set (concat (people_list a)). hh_id p \<in> set (map hh_index (concat (hh_list a)))"
proof -
  from parallel_lists_Inr [OF assms(2)] obtain gs finished_args where
    run: "process_results gs 0 (submit_synthesize ext finished_args) par_acc0 = Inr a"
    by blast
  show ?thesis
  proof (rule process_results_invariant
      [where P = "\<lambda>a. \<forall>p \<in> set (concat (people_list a)).
                      hh_id p \<in> set (map hh_index (concat (hh_list a)))", OF run])
    show "\<forall>p \<in> set (concat (people_list par_acc0)).
        hh_id p \<in> set (map hh_index (concat (hh_list par_acc0)))"
      by (simp add: par_acc0_def)
  next
    fix a :: "'a par_acc" and e
    assume "\<forall>p \<in> set (concat (people_list a)).
        hh_id p \<in> set (map hh_index (concat (hh_list a)))"
    then show "\<forall>p \<in> set (concat (people_list (a\<lparr>printed := printed a @ [e]\<rparr>))).
        hh_id p \<in> set (map hh_index (concat (hh_list (a\<lparr>printed := printed a @ [e]\<rparr>))))"
      by simp
  next
    fix g and a :: "'a par_acc" and r key
    assume P: "\<forall>p \<in> set (concat (people_list a)).
        hh_id p \<in> set (map hh_index (concat (hh_list a)))"
      and r: "Inr r \<in> set (submit_synthesize ext finished_args)"
    from submit_synthesize_drawn [OF r] assms(1)
    have "\<forall>p \<in> set (people r). hh_id p \<in> set (map hh_index (households r))"
      unfolding drawer_links_people_def by blast
    then have l: "\<forall>p \<in> set (people r).
        hh_id p \<in> set (map hh_index (append_location_identifiers g (households r)))"
      by (simp only: hh_index_append_location)
    have "hh_id p + hh_index_start a \<in> (\<lambda>h. hh_index h + hh_index_start a) `
        set (append_location_identifiers g (households r))" if "p \<in> set (people r)" for p
      using l that by auto
    with P show "\<forall>p \<in> set (concat (people_list
          (a\<lparr>hh_list := hh_list a @
                   [map (\<lambda>h. h\<lparr>hh_index := hh_index h + hh_index_start a\<rparr>)
                      (append_location_identifiers g (households r))],
               people_list := people_list a @
                   [map (\<lambda>p. p\<lparr>hh_id := hh_id p + hh_index_start a\<rparr>) (people r)],
               fit_quality := AList.update key (people_chisq r, people_p r) (fit_quality a),
               hh_index_start := next_index_start
                   (map (\<lambda>h. h\<lparr>hh_index := hh_index h + hh_index_start a\<rparr>)
                      (append_location_identifiers g (households r)))
                   (hh_index_start a)\<rparr>))).
        hh_id p \<in> set (map hh_index (concat (hh_list
          (a\<lparr>hh_list := hh_list a @
                   [map (\<lambda>h. h\<lparr>hh_index := hh_index h + hh_index_start a\<rparr>)
                      (append_location_identifiers g (households r))],
               people_list := people_list a @
                   [map (\<lambda>p. p\<lparr>hh_id := hh_id p + hh_index_start a\<rparr>) (people r)],
               fit_quality := AList.update key (people_chisq r, people_p r) (fit_quality a),
               hh_index_start := next_index_start
                   (map (\<lambda>h. h\<lparr>hh_index := hh_index h + hh_index_start a\<rparr>)
                      (append_location_identifiers g (households r)))
                   (hh_index_start a)\<rparr>))))"
      by (auto simp: comp_def)
  qed
qed

text \<open>
  Claim C10. Let every call of the drawer return persons whose \<open>hh_id\<close> is the
  index of a household it returned. Then in a run of either driver that returns,
  the \<open>hh_id\<close> of every row of the person table is the index of a row of the
  household table of that run (the parallel driver shifts both by the same
  offset).
\<close>

theorem person_hh_id_refers_to_household:
  assumes "\<forall>j. drawer_links_people (ext j)"
  shows "(synthesize_all ext recipe num_geogs indexes mzs jzs = Inr (hh, pp, fq) \<longrightarrow>
            (\<forall>p \<in> set pp. hh_id p \<in> set (map hh_index hh)))
       \<and> (synthesize_all_in_parallel ext order recipe num_geogs indexes mzs jzs
            = Inr ((hh', pp', fq'), out) \<longrightarrow>
            (\<forall>p \<in> set pp'. hh_id p \<in> set (map hh_index hh')))"
proof -
  have 1: "\<forall>p \<in> set pp. hh_id p \<in> set (map hh_index hh)"
    if "synthesize_all ext recipe num_geogs indexes mzs jzs = Inr (hh, pp, fq)"
    using synthesize_all_Inr [OF that] sequential_linked [OF assms] by blast
  have 2: "\<forall>p \<in> set pp'. hh_id p \<in> set (map hh_index hh')"
    if "synthesize_all_in_parallel ext order recipe num_geogs indexes mzs jzs
            = Inr ((hh', pp', fq'), out)"
    using synthesize_all_in_parallel_Inr [OF that] parallel_linked [OF assms] by blast
  from 1 2 show ?thesis by blast
qed

section \<open>The concrete runs evaluated\<close>

lemma demo_households_index:
  "map hh_index (map (\<lambda>(i, r). \<lparr>hh_index = start + int i, hh_cells = cells r\<rparr>) (enumerate n hp))
     = map (\<lambda>i. start + int i) [n..<n + length hp]"
proof -
  have "map hh_index (map (\<lambda>(i, r). \<lparr>hh_index = start + int i, hh_cells = cells r\<rparr>)
          (enumerate n hp))
        = map (\<lambda>i. start + int i) (map fst (enumerate n hp))"
    by (simp add: case_prod_unfold comp_def del: map_fst_enumerate)
  then show ?thesis by (simp only: map_fst_enumerate)
qed

lemma demo_ext_numbers: "drawer_numbers_from_start (demo_ext ok iters)"
proof -
  have "index_from start (households r)"
    if "draw_households (demo_ext ok iters) n hp pp hf hc pc w start = Inr r"
    for n hp pp hf hc pc w start r
  proof -
    from that have hh: "households r
        = map (\<lambda>(i, r). \<lparr>hh_index = start + int i, hh_cells = cells r\<rparr>) (enumerate 0 hp)"
      by (auto simp: demo_ext_def split: if_splits)
    have "sorted_wrt (<) (map hh_index (households r))"
      unfolding hh demo_households_index by (simp add: sorted_wrt_map)
    moreover have "hh_index (hd (households r)) = start" if "households r \<noteq> []"
      using that unfolding hh by (cases hp) auto
    ultimately show ?thesis by (simp add: index_from_def)
  qed
  then show ?thesis unfolding drawer_numbers_from_start_def by blast
qed

lemma demo_ext_links: "drawer_links_people (demo_ext ok iters)"
  unfolding drawer_links_people_def
  by (auto simp: demo_ext_def split: if_splits) force

lemmas demo_defs =
  synthesize_all_def synthesize_all_lists_def resolve_indexes_def fetch_tables_def
  demo_recipe_def demo_geog_def demo_family_def demo_ext_def demo_tables_def
  synthesize_def synthesize_prepare_def replace_zero_def replace_cell_def
  zero_guard_tables_def frequency_replace_def set_index_def namespace_tables_def
  add_cat_id_def num_households_of_def groupby_level0_sum_def mean_def py_int_def
  max_iterations_def log_iterations_def
  append_location_identifiers_def set_column_def block_group_id_def getitem_def
  cap_reached_def next_index_start_def acc0_def concat_results_def pd_concat_def Let_def
  synthesize_all_in_parallel_def synthesize_all_in_parallel_lists_def parallel_futures_def
  geog_preprocessing_def as_completed_def submit_synthesize_def par_acc0_def



section \<open>Phase 3 of the parallel driver\<close>

lemma succeeded_Cons_Inl: "succeeded (g # gs) (Inl e # fs) = succeeded gs fs"
  by (simp add: succeeded_def)

lemma succeeded_Cons_Inr: "succeeded (g # gs) (Inr r # fs) = (g, r) # succeeded gs fs"
  by (simp add: succeeded_def)

lemma succeeded_Nil: "succeeded gs [] = []"
  by (simp add: succeeded_def)

lemma failures_simps:
  "failures [] = []"
  "failures (Inl e # fs) = e # failures fs"
  "failures (Inr r # fs) = failures fs"
  by (simp_all add: failures_def)

lemma process_results_succeeded:
  assumes "i + length fs \<le> length gs"
    and "\<forall>g \<in> set gs. \<exists>key. block_group_id g = Inr key"
  shows "\<exists>a'. process_results gs i fs a = Inr a'
     \<and> printed a' = printed a @ failures fs
     \<and> map (map hh_cells) (hh_list a') = map (map hh_cells) (hh_list a) @
         map (\<lambda>(g, r). map hh_cells (append_location_identifiers g (households r)))
             (succeeded (drop i gs) fs)
     \<and> map (map p_cells) (people_list a') = map (map p_cells) (people_list a) @
         map (\<lambda>(g, r). map p_cells (people r)) (succeeded (drop i gs) fs)
     \<and> Inr ` set (map fst (fit_quality a')) =
         Inr ` set (map fst (fit_quality a))
           \<union> block_group_id ` set (map fst (succeeded (drop i gs) fs))"
  using assms(1)
proof (induction fs arbitrary: i a)
  case Nil
  then show ?case by (simp add: succeeded_Nil failures_simps)
next
  case (Cons f fs)
  from Cons.prems have i: "i < length gs" and le: "(i + 1) + length fs \<le> length gs" by auto
  have dr: "drop i gs = gs ! i # drop (i + 1) gs"
    using i by (simp add: Cons_nth_drop_Suc)
  show ?case
  proof (cases f)
    case (Inl e)
    from Cons.IH [OF le, of "a\<lparr>printed := printed a @ [e]\<rparr>"] show ?thesis
      by (simp add: Inl dr succeeded_Cons_Inl failures_simps)
  next
    case (Inr r)
    from assms(2) i obtain key where key: "block_group_id (gs ! i) = Inr key"
      by (meson nth_mem)
    let ?a = "a\<lparr>hh_list := hh_list a @
                   [map (\<lambda>h. h\<lparr>hh_index := hh_index h + hh_index_start a\<rparr>)
                      (append_location_identifiers (gs ! i) (households r))],
               people_list := people_list a @
                   [map (\<lambda>p. p\<lparr>hh_id := hh_id p + hh_index_start a\<rparr>) (people r)],
               fit_quality := AList.update key (people_chisq r, people_p r) (fit_quality a),
               hh_index_start := next_index_start
                   (map (\<lambda>h. h\<lparr>hh_index := hh_index h + hh_index_start a\<rparr>)
                      (append_location_identifiers (gs ! i) (households r)))
                   (hh_index_start a)\<rparr>"
    have step: "process_results gs i (f # fs) a = process_results gs (i + 1) fs ?a"
      using Inr i key by (simp add: Let_def)
    have keys: "Inr ` set (map fst (fit_quality ?a))
        = Inr ` set (map fst (fit_quality a)) \<union> {block_group_id (gs ! i)}"
      using key by (auto simp: dom_update)
    from Cons.IH [OF le, of ?a] obtain a' where
      run: "process_results gs (i + 1) fs ?a = Inr a'"
      and pr: "printed a' = printed ?a @ failures fs"
      and hh: "map (map hh_cells) (hh_list a') = map (map hh_cells) (hh_list ?a) @
         map (\<lambda>(g, r). map hh_cells (append_location_identifiers g (households r)))
             (succeeded (drop (i + 1) gs) fs)"
      and pp: "map (map p_cells) (people_list a') = map (map p_cells) (people_list ?a) @
         map (\<lambda>(g, r). map p_cells (people r)) (succeeded (drop (i + 1) gs) fs)"
      and fq: "Inr ` set (map fst (fit_quality a')) =
         Inr ` set (map fst (fit_quality ?a))
           \<union> block_group_id ` set (map fst (succeeded (drop (i + 1) gs) fs))"
      by blast
    have "printed a' = printed a @ failures (f # fs)"
      using pr Inr by (simp add: failures_simps)
    moreover have "map (map hh_cells) (hh_list a') = map (map hh_cells) (hh_list a) @
         map (\<lambda>(g, r). map hh_cells (append_location_identifiers g (households r)))
             (succeeded (drop i gs) (f # fs))"
      using hh by (simp add: Inr dr succeeded_Cons_Inr comp_def)
    moreover have "map (map p_cells) (people_list a') = map (map p_cells) (people_list a) @
         map (\<lambda>(g, r). map p_cells (people r)) (succeeded (drop i gs) (f # fs))"
      using pp by (simp add: Inr dr succeeded_Cons_Inr comp_def)
    moreover have "Inr ` set (map fst (fit_quality a')) =
         Inr ` set (map fst (fit_quality a))
           \<union> block_group_id ` set (map fst (succeeded (drop i gs) (f # fs)))"
      unfolding fq keys by (auto simp: Inr dr succeeded_Cons_Inr)
    ultimately show ?thesis
      using run step by simp
  qed
qed


lemma as_completed_in_order: "as_completed [0..<length fs] fs = fs"
  by (simp add: as_completed_def map_nth)

lemma collect_results_all:
  assumes "\<forall>g \<in> set gs. \<exists>t. fetch_tables recipe g = Inr t"
  shows "collect_results (map (\<lambda>g. geog_preprocessing g recipe mzs jzs) gs)
           = Inr (map (\<lambda>g. (projr (fetch_tables recipe g), mzs, jzs)) gs)"
  using assms by (induction gs) (auto simp: geog_preprocessing_def)

lemma submit_synthesize_tasks:
  assumes "\<forall>g \<in> set gs. \<exists>t. fetch_tables recipe g = Inr t"
  shows "submit_synthesize ext (map (\<lambda>g. (projr (fetch_tables recipe g), mzs, jzs)) gs)
           = map (\<lambda>(j, g). task_of ext recipe mzs jzs j g) (enumerate 0 gs)"
proof -
  have "map (\<lambda>(j, (t, m, z)). result (synthesize (ext j) t m z 0))
          (enumerate n (map (\<lambda>g. (projr (fetch_tables recipe g), mzs, jzs)) gs))
        = map (\<lambda>(j, g). task_of ext recipe mzs jzs j g) (enumerate n gs)" for n
    using assms by (induction gs arbitrary: n) (auto simp: task_of_def)
  then show ?thesis by (simp add: submit_synthesize_def)
qed

lemma parallel_futures_in_order:
  assumes "geog_ids = submitted num_geogs 0 (resolve_indexes recipe indexes)"
    and "order = [0..<length geog_ids]"
    and "\<forall>g \<in> set geog_ids. \<exists>t. fetch_tables recipe g = Inr t"
  shows "parallel_futures ext order recipe num_geogs indexes mzs jzs
           = Inr (geog_ids, map (\<lambda>(j, g). task_of ext recipe mzs jzs j g) (enumerate 0 geog_ids))"
proof -
  have "as_completed order (map (\<lambda>g. geog_preprocessing g recipe mzs jzs) geog_ids)
      = map (\<lambda>g. geog_preprocessing g recipe mzs jzs) geog_ids"
    using as_completed_in_order [of "map (\<lambda>g. geog_preprocessing g recipe mzs jzs) geog_ids"]
    by (simp add: assms(2))
  then show ?thesis
    using collect_results_all [OF assms(3), of mzs jzs]
      submit_synthesize_tasks [OF assms(3), of ext mzs jzs]
    by (simp add: parallel_futures_def Let_def assms(1) [symmetric])
qed

text \<open>
  Claim C2, as amended. Let every fetch of phase 1 succeed and complete in
  submission order, let every geography id have the four key columns, and let at
  least one synthesis task succeed. Then the parallel driver returns; it prints
  exactly the exceptions of the tasks that failed, in submission order (the
  exception alone, not the geography); and the household rows, the person rows
  and the keys of the fit-quality map are those of the geographies whose task
  succeeded, in submission order.
\<close>

theorem parallel_failure_isolated:
  assumes "geog_ids = submitted num_geogs 0 (resolve_indexes recipe indexes)"
    and "order = [0..<length geog_ids]"
    and "\<forall>g \<in> set geog_ids. \<exists>t key. fetch_tables recipe g = Inr t \<and> block_group_id g = Inr key"
    and "futures = map (\<lambda>(j, g). task_of ext recipe mzs jzs j g) (enumerate 0 geog_ids)"
    and "succeeded geog_ids futures \<noteq> []"
  shows "\<exists>hh pp fq.
      synthesize_all_in_parallel ext order recipe num_geogs indexes mzs jzs
        = Inr ((hh, pp, fq), failures futures)
      \<and> map hh_cells hh =
          concat (map (\<lambda>(g, r). map hh_cells (append_location_identifiers g (households r)))
                      (succeeded geog_ids futures))
      \<and> map p_cells pp =
          concat (map (\<lambda>(g, r). map p_cells (people r)) (succeeded geog_ids futures))
      \<and> Inr ` set (map fst fq) = block_group_id ` set (map fst (succeeded geog_ids futures))"
proof -
  have fetch: "\<forall>g \<in> set geog_ids. \<exists>t. fetch_tables recipe g = Inr t"
    and keys: "\<forall>g \<in> set geog_ids. \<exists>key. block_group_id g = Inr key"
    using assms(3) by blast+
  have pf: "parallel_futures ext order recipe num_geogs indexes mzs jzs
      = Inr (geog_ids, futures)"
    unfolding assms(4) by (rule parallel_futures_in_order [OF assms(1,2) fetch])
  have len: "0 + length futures \<le> length geog_ids"
    by (simp add: assms(4))
  from process_results_succeeded [OF len keys, of par_acc0] obtain a where
    run: "process_results geog_ids 0 futures par_acc0 = Inr a"
    and pr: "printed a = failures futures"
    and hh: "map (map hh_cells) (hh_list a) =
         map (\<lambda>(g, r). map hh_cells (append_location_identifiers g (households r)))
             (succeeded geog_ids futures)"
    and pp: "map (map p_cells) (people_list a) =
         map (\<lambda>(g, r). map p_cells (people r)) (succeeded geog_ids futures)"
    and fq: "Inr ` set (map fst (fit_quality a)) =
         block_group_id ` set (map fst (succeeded geog_ids futures))"
    by (auto simp: par_acc0_def)
  from hh assms(5) have ne: "hh_list a \<noteq> []" by auto
  from pp assms(5) have ne': "people_list a \<noteq> []" by auto
  have res: "synthesize_all_in_parallel ext order recipe num_geogs indexes mzs jzs
        = Inr ((concat (hh_list a), concat (people_list a), fit_quality a), failures futures)"
    using ne ne'
    by (simp add: synthesize_all_in_parallel_def synthesize_all_in_parallel_lists_def pf run
        concat_results_def pd_concat_def pr)
  have "map hh_cells (concat (hh_list a)) =
          concat (map (\<lambda>(g, r). map hh_cells (append_location_identifiers g (households r)))
                      (succeeded geog_ids futures))"
    using hh by (simp add: map_concat)
  moreover have "map p_cells (concat (people_list a)) =
          concat (map (\<lambda>(g, r). map p_cells (people r)) (succeeded geog_ids futures))"
    using pp by (simp add: map_concat)
  ultimately show ?thesis using res fq by blast
qed

lemmas demo_results = demo_household_def demo_person_def demo_key_def demo_drawn_def

lemma demo_sequential:
  "synthesize_all (demo_family []) (demo_recipe []) None None (1 / 100) (1 / 1000) =
     Inr ([demo_household 0 ''1'' ''1'', demo_household 1 ''2'' ''2''],
          [demo_person 0 ''1'', demo_person 1 ''2''],
          [(demo_key ''1'', 20, 1), (demo_key ''2'', 30, 1)])"
  by (simp add: demo_defs demo_results)

lemma demo_parallel_swapped:
  "synthesize_all_in_parallel (demo_family []) [1, 0] (demo_recipe []) None None
       (1 / 100) (1 / 1000) =
     Inr (([demo_household 0 ''2'' ''1'', demo_household 1 ''1'' ''2''],
           [demo_person 0 ''2'', demo_person 1 ''1''],
           [(demo_key ''1'', 30, 1), (demo_key ''2'', 20, 1)]), [])"
  by (simp add: demo_defs demo_results)

lemma demo_parallel_in_order:
  "synthesize_all_in_parallel (demo_family []) [0, 1] (demo_recipe []) None None
       (1 / 100) (1 / 1000) =
     Inr (([demo_household 0 ''1'' ''1'', demo_household 1 ''2'' ''2''],
           [demo_person 0 ''1'', demo_person 1 ''2''],
           [(demo_key ''1'', 20, 1), (demo_key ''2'', 30, 1)]), [])"
  by (simp add: demo_defs demo_results)

lemma demo_task:
  "task_of (demo_family failing) (demo_recipe []) (1 / 100) (1 / 1000) j (demo_geog b) =
     (if j \<in> set failing then Inl (Raised ''degenerate weights'')
      else Inr (demo_drawn b (if b = ''1'' then 20 else 30)))"
  by (simp add: task_of_def demo_defs demo_results)

lemma demo_fetch_and_key:
  "\<exists>t key. fetch_tables (demo_recipe []) (demo_geog b) = Inr t
      \<and> block_group_id (demo_geog b) = Inr key"
  by (simp add: demo_defs)

lemma demo_parallel_first_fails:
  "synthesize_all_in_parallel (demo_family [0]) [0, 1, 2] (demo_recipe []) None
       (Some [demo_geog ''1'', demo_geog ''2'', demo_geog ''3'']) (1 / 100) (1 / 1000) =
     Inr (([demo_household 0 ''2'' ''2'', demo_household 1 ''3'' ''3''],
           [demo_person 0 ''2'', demo_person 1 ''3''],
           [(demo_key ''2'', 30, 1), (demo_key ''3'', 30, 1)]),
          [Raised ''degenerate weights''])"
  by (simp add: demo_defs demo_results)

lemma demo_parallel_second_fails:
  "synthesize_all_in_parallel (demo_family [1]) [0, 1, 2] (demo_recipe []) None
       (Some [demo_geog ''1'', demo_geog ''2'', demo_geog ''3'']) (1 / 100) (1 / 1000) =
     Inr (([demo_household 0 ''1'' ''1'', demo_household 1 ''3'' ''3''],
           [demo_person 0 ''1'', demo_person 1 ''3''],
           [(demo_key ''1'', 20, 1), (demo_key ''3'', 30, 1)]),
          [Raised ''degenerate weights''])"
  by (simp add: demo_defs demo_results)

lemma demo_parallel_fetch_fails:
  "synthesize_all_in_parallel (demo_family []) [0, 1, 2] (demo_recipe [''2'']) None
       (Some [demo_geog ''1'', demo_geog ''2'', demo_geog ''3'']) (1 / 100) (1 / 1000) =
     Inl (Raised ''no marginal'')"
  by (simp add: demo_defs demo_results)


lemma append_location_carries:
  "h \<in> set (append_location_identifiers g hh) \<Longrightarrow> carries_keys g h"
  by (simp add: carries_keys_def append_location_cells)

lemma carries_keys_shift: "carries_keys g (h\<lparr>hh_index := i\<rparr>) = carries_keys g h"
  by (simp add: carries_keys_def)

lemma sequential_people:
  assumes "synthesize_all_lists ext recipe num_geogs indexes mzs jzs = Inr a"
  shows "\<forall>p \<in> set (concat (people_list a)). drawn_person ext p"
proof (rule synthesize_all_loop_invariant
    [where P = "\<lambda>a. \<forall>p \<in> set (concat (people_list a)). drawn_person ext p",
      OF assms [unfolded synthesize_all_lists_def]])
  show "\<forall>p \<in> set (concat (people_list acc0)). drawn_person ext p"
    by (simp add: acc0_def)
next
  fix g j and a :: "'a acc" and t r key
  assume P: "\<forall>p \<in> set (concat (people_list a)). drawn_person ext p"
    and r: "result (synthesize (ext j) t mzs jzs (hh_index_start a)) = Inr r"
  from synthesize_result_drawn [OF r]
  have "\<forall>p \<in> set (people r). drawn_person ext p"
    unfolding drawn_person_def by blast
  with P show "\<forall>p \<in> set (concat (people_list
        \<lparr>hh_list = hh_list a @ [append_location_identifiers g (households r)],
         people_list = people_list a @ [people r],
         fit_quality = AList.update key (people_chisq r, people_p r) (fit_quality a),
         hh_index_start = next_index_start (append_location_identifiers g (households r))
                            (hh_index_start a)\<rparr>)). drawn_person ext p"
    by (simp add: ball_Un)
qed

lemma sequential_households:
  assumes "synthesize_all_lists ext recipe num_geogs indexes mzs jzs = Inr a"
  shows "\<forall>h \<in> set (concat (hh_list a)).
           \<exists>g \<in> set (resolve_indexes recipe indexes). carries_keys g h"
proof (rule synthesize_all_loop_invariant
    [where P = "\<lambda>a. \<forall>h \<in> set (concat (hh_list a)).
           \<exists>g \<in> set (resolve_indexes recipe indexes). carries_keys g h",
      OF assms [unfolded synthesize_all_lists_def]])
  show "\<forall>h \<in> set (concat (hh_list acc0)).
      \<exists>g \<in> set (resolve_indexes recipe indexes). carries_keys g h"
    by (simp add: acc0_def)
next
  fix g j and a :: "'a acc" and t r key
  assume g: "g \<in> set (resolve_indexes recipe indexes)"
    and P: "\<forall>h \<in> set (concat (hh_list a)).
      \<exists>g \<in> set (resolve_indexes recipe indexes). carries_keys g h"
  have "\<forall>h \<in> set (append_location_identifiers g (households r)).
      \<exists>g \<in> set (resolve_indexes recipe indexes). carries_keys g h"
    using g append_location_carries by blast
  with P show "\<forall>h \<in> set (concat (hh_list
        \<lparr>hh_list = hh_list a @ [append_location_identifiers g (households r)],
         people_list = people_list a @ [people r],
         fit_quality = AList.update key (people_chisq r, people_p r) (fit_quality a),
         hh_index_start = next_index_start (append_location_identifiers g (households r))
                            (hh_index_start a)\<rparr>)).
      \<exists>g \<in> set (resolve_indexes recipe indexes). carries_keys g h"
    by (simp add: ball_Un)
qed

lemma parallel_people:
  assumes "synthesize_all_in_parallel_lists ext order recipe num_geogs indexes mzs jzs = Inr a"
  shows "\<forall>p \<in> set (concat (people_list a)). \<exists>q. drawn_person ext q \<and> p_cells p = p_cells q"
proof -
  from parallel_lists_Inr [OF assms] obtain gs finished_args where
    run: "process_results gs 0 (submit_synthesize ext finished_args) par_acc0 = Inr a"
    by blast
  let ?P = "\<lambda>a :: 'a par_acc.
       \<forall>p \<in> set (concat (people_list a)). \<exists>q. drawn_person ext q \<and> p_cells p = p_cells q"
  show ?thesis
  proof (rule process_results_invariant [where P = ?P, OF run])
    show "?P par_acc0" by (simp add: par_acc0_def)
  next
    fix a :: "'a par_acc" and e
    assume "?P a"
    then show "?P (a\<lparr>printed := printed a @ [e]\<rparr>)" by simp
  next
    fix g and a :: "'a par_acc" and r key
    assume P: "?P a"
      and r: "Inr r \<in> set (submit_synthesize ext finished_args)"
    from submit_synthesize_drawn [OF r]
    have d: "\<forall>p \<in> set (people r). drawn_person ext p"
      unfolding drawn_person_def by blast
    have pp: "\<forall>p \<in> set (map (\<lambda>p. p\<lparr>hh_id := hh_id p + hh_index_start a\<rparr>) (people r)).
        \<exists>q. drawn_person ext q \<and> p_cells p = p_cells q"
    proof
      fix p assume "p \<in> set (map (\<lambda>p. p\<lparr>hh_id := hh_id p + hh_index_start a\<rparr>) (people r))"
      then obtain q where "q \<in> set (people r)" "p = q\<lparr>hh_id := hh_id q + hh_index_start a\<rparr>"
        by auto
      with d have "drawn_person ext q \<and> p_cells p = p_cells q" by simp
      then show "\<exists>q. drawn_person ext q \<and> p_cells p = p_cells q" by blast
    qed
    show "?P (a\<lparr>hh_list := hh_list a @
                   [map (\<lambda>h. h\<lparr>hh_index := hh_index h + hh_index_start a\<rparr>)
                      (append_location_identifiers g (households r))],
               people_list := people_list a @
                   [map (\<lambda>p. p\<lparr>hh_id := hh_id p + hh_index_start a\<rparr>) (people r)],
               fit_quality := AList.update key (people_chisq r, people_p r) (fit_quality a),
               hh_index_start := next_index_start
                   (map (\<lambda>h. h\<lparr>hh_index := hh_index h + hh_index_start a\<rparr>)
                      (append_location_identifiers g (households r)))
                   (hh_index_start a)\<rparr>)"
      using P pp by (simp add: ball_Un del: set_map)
  qed
qed

lemma parallel_households:
  assumes "synthesize_all_in_parallel_lists ext order recipe num_geogs indexes mzs jzs = Inr a"
  shows "\<forall>h \<in> set (concat (hh_list a)).
           \<exists>g \<in> set (resolve_indexes recipe indexes). carries_keys g h"
proof -
  from parallel_lists_Inr [OF assms] obtain gs finished_args where
    run: "process_results gs 0 (submit_synthesize ext finished_args) par_acc0 = Inr a"
    and gs: "set gs \<subseteq> set (resolve_indexes recipe indexes)"
    by blast
  let ?P = "\<lambda>a :: 'a par_acc. \<forall>h \<in> set (concat (hh_list a)).
           \<exists>g \<in> set (resolve_indexes recipe indexes). carries_keys g h"
  show ?thesis
  proof (rule process_results_invariant [where P = ?P, OF run])
    show "?P par_acc0" by (simp add: par_acc0_def)
  next
    fix a :: "'a par_acc" and e
    assume "?P a"
    then show "?P (a\<lparr>printed := printed a @ [e]\<rparr>)" by simp
  next
    fix g and a :: "'a par_acc" and r key
    assume g: "g \<in> set gs" and P: "?P a"
    have hh: "\<forall>h \<in> set (map (\<lambda>h. h\<lparr>hh_index := hh_index h + hh_index_start a\<rparr>)
                      (append_location_identifiers g (households r))).
        \<exists>g \<in> set (resolve_indexes recipe indexes). carries_keys g h"
    proof
      fix h assume "h \<in> set (map (\<lambda>h. h\<lparr>hh_index := hh_index h + hh_index_start a\<rparr>)
                      (append_location_identifiers g (households r)))"
      then obtain k where "k \<in> set (append_location_identifiers g (households r))"
        "h = k\<lparr>hh_index := hh_index k + hh_index_start a\<rparr>" by auto
      with append_location_carries [of k g "households r"] have "carries_keys g h"
        by (simp add: carries_keys_shift)
      with g gs show "\<exists>g \<in> set (resolve_indexes recipe indexes). carries_keys g h" by blast
    qed
    show "?P (a\<lparr>hh_list := hh_list a @
                   [map (\<lambda>h. h\<lparr>hh_index := hh_index h + hh_index_start a\<rparr>)
                      (append_location_identifiers g (households r))],
               people_list := people_list a @
                   [map (\<lambda>p. p\<lparr>hh_id := hh_id p + hh_index_start a\<rparr>) (people r)],
               fit_quality := AList.update key (people_chisq r, people_p r) (fit_quality a),
               hh_index_start := next_index_start
                   (map (\<lambda>h. h\<lparr>hh_index := hh_index h + hh_index_start a\<rparr>)
                      (append_location_identifiers g (households r)))
                   (hh_index_start a)\<rparr>)"
      using P hh by (simp add: ball_Un del: set_map)
  qed
qed

text \<open>
  Claim C4, as amended. The drivers write the geography key columns on household
  rows only. In a run of \<open>synthesize_all\<close> that returns, every row of the person
  table is a row the drawer returned, as it returned it; in a run of
  \<open>synthesize_all_in_parallel\<close> it is such a row with nothing but \<open>hh_id\<close>
  changed. Every row of the household table carries the key columns of one of
  the geography ids of the run.
\<close>

theorem key_columns_on_households_only:
  "(synthesize_all ext recipe num_geogs indexes mzs jzs = Inr (hh, pp, fq) \<longrightarrow>
      (\<forall>p \<in> set pp. drawn_person ext p)
      \<and> (\<forall>h \<in> set hh. \<exists>g \<in> set (resolve_indexes recipe indexes). carries_keys g h))
   \<and> (synthesize_all_in_parallel ext order recipe num_geogs indexes mzs jzs
        = Inr ((hh', pp', fq'), out) \<longrightarrow>
      (\<forall>p \<in> set pp'. \<exists>q. drawn_person ext q \<and> p_cells p = p_cells q)
      \<and> (\<forall>h \<in> set hh'. \<exists>g \<in> set (resolve_indexes recipe indexes). carries_keys g h))"
proof -
  have 1: "(\<forall>p \<in> set pp. drawn_person ext p)
      \<and> (\<forall>h \<in> set hh. \<exists>g \<in> set (resolve_indexes recipe indexes). carries_keys g h)"
    if run: "synthesize_all ext recipe num_geogs indexes mzs jzs = Inr (hh, pp, fq)"
  proof -
    from synthesize_all_Inr [OF run] obtain a where
      a: "synthesize_all_lists ext recipe num_geogs indexes mzs jzs = Inr a"
      and "hh = concat (hh_list a)" "pp = concat (people_list a)" by blast
    with sequential_people [OF a] sequential_households [OF a] show ?thesis by simp
  qed
  have 2: "(\<forall>p \<in> set pp'. \<exists>q. drawn_person ext q \<and> p_cells p = p_cells q)
      \<and> (\<forall>h \<in> set hh'. \<exists>g \<in> set (resolve_indexes recipe indexes). carries_keys g h)"
    if run: "synthesize_all_in_parallel ext order recipe num_geogs indexes mzs jzs
        = Inr ((hh', pp', fq'), out)"
  proof -
    from synthesize_all_in_parallel_Inr [OF run] obtain a where
      a: "synthesize_all_in_parallel_lists ext order recipe num_geogs indexes mzs jzs = Inr a"
      and "hh' = concat (hh_list a)" "pp' = concat (people_list a)" by blast
    with parallel_people [OF a] parallel_households [OF a] show ?thesis by simp
  qed
  from 1 2 show ?thesis by (intro conjI impI) blast+
qed

section \<open>The claims at the concrete runs\<close>

lemma demo_family_numbers: "\<forall>j. drawer_numbers_from_start (demo_family failing j)"
  by (simp add: demo_family_def demo_ext_numbers)

lemma demo_family_links: "\<forall>j. drawer_links_people (demo_family failing j)"
  by (simp add: demo_family_def demo_ext_links)

theorem household_ids_stitched_witness:
  "(\<exists>a. synthesize_all_lists (demo_family []) (demo_recipe []) None None (1 / 100) (1 / 1000)
          = Inr a \<and> stitched (hh_list a))
   \<and> sorted_wrt (<) (map hh_index [demo_household 0 ''1'' ''1'', demo_household 1 ''2'' ''2''])
   \<and> (\<exists>b. synthesize_all_in_parallel_lists (demo_family []) [1, 0] (demo_recipe []) None None
          (1 / 100) (1 / 1000) = Inr b \<and> stitched (hh_list b))
   \<and> sorted_wrt (<) (map hh_index [demo_household 0 ''2'' ''1'', demo_household 1 ''1'' ''2''])"
proof -
  from synthesize_all_Inr [OF demo_sequential] obtain a where
    a: "synthesize_all_lists (demo_family []) (demo_recipe []) None None (1 / 100) (1 / 1000)
          = Inr a" by blast
  from synthesize_all_in_parallel_Inr [OF demo_parallel_swapped] obtain b where
    b: "synthesize_all_in_parallel_lists (demo_family []) [1, 0] (demo_recipe []) None None
          (1 / 100) (1 / 1000) = Inr b" by blast
  from household_ids_stitched [OF demo_family_numbers, of "[]" "demo_recipe []" None None
      "1 / 100" "1 / 1000" a "[demo_household 0 ''1'' ''1'', demo_household 1 ''2'' ''2'']"
      "[demo_person 0 ''1'', demo_person 1 ''2'']"
      "[(demo_key ''1'', 20, 1), (demo_key ''2'', 30, 1)]"
      "[1, 0]" b "[demo_household 0 ''2'' ''1'', demo_household 1 ''1'' ''2'']"
      "[demo_person 0 ''2'', demo_person 1 ''1'']"
      "[(demo_key ''1'', 30, 1), (demo_key ''2'', 20, 1)]" "[]"]
    a b demo_sequential demo_parallel_swapped
  show ?thesis by blast
qed

theorem person_hh_id_refers_to_household_witness:
  "set (map hh_id [demo_person 0 ''1'', demo_person 1 ''2''])
     \<subseteq> set (map hh_index [demo_household 0 ''1'' ''1'', demo_household 1 ''2'' ''2''])
   \<and> set (map hh_id [demo_person 0 ''2'', demo_person 1 ''1''])
     \<subseteq> set (map hh_index [demo_household 0 ''2'' ''1'', demo_household 1 ''1'' ''2''])"
  using person_hh_id_refers_to_household [OF demo_family_links, of "[]" "demo_recipe []"
      None None "1 / 100" "1 / 1000"
      "[demo_household 0 ''1'' ''1'', demo_household 1 ''2'' ''2'']"
      "[demo_person 0 ''1'', demo_person 1 ''2'']"
      "[(demo_key ''1'', 20, 1), (demo_key ''2'', 30, 1)]"
      "[1, 0]" "[demo_household 0 ''2'' ''1'', demo_household 1 ''1'' ''2'']"
      "[demo_person 0 ''2'', demo_person 1 ''1'']"
      "[(demo_key ''1'', 30, 1), (demo_key ''2'', 20, 1)]" "[]"]
    demo_sequential demo_parallel_swapped
  by (simp add: subset_iff)

theorem key_columns_on_households_only_witness:
  "drawn_person (demo_family []) (demo_person 0 ''1'')
   \<and> (\<exists>g \<in> set (resolve_indexes (demo_recipe []) None).
         carries_keys g (demo_household 1 ''2'' ''2''))
   \<and> (\<exists>q. drawn_person (demo_family []) q
         \<and> p_cells (demo_person 1 ''1'') = p_cells q)
   \<and> (\<exists>g \<in> set (resolve_indexes (demo_recipe []) None).
         carries_keys g (demo_household 1 ''1'' ''2''))"
  using key_columns_on_households_only [of "demo_family []" "demo_recipe []"
      None None "1 / 100" "1 / 1000"
      "[demo_household 0 ''1'' ''1'', demo_household 1 ''2'' ''2'']"
      "[demo_person 0 ''1'', demo_person 1 ''2'']"
      "[(demo_key ''1'', 20, 1), (demo_key ''2'', 30, 1)]"
      "[1, 0]" "[demo_household 0 ''2'' ''1'', demo_household 1 ''1'' ''2'']"
      "[demo_person 0 ''2'', demo_person 1 ''1'']"
      "[(demo_key ''1'', 30, 1), (demo_key ''2'', 20, 1)]" "[]"]
    demo_sequential demo_parallel_swapped
  by simp

text \<open>The run over the two demo geographies: the first household row has
  \<open>state\<close> = 06 as its geography does, the first person row has no \<open>state\<close>.\<close>

theorem person_key_columns_counterexample:
  "synthesize_all (demo_family []) (demo_recipe []) None None 0.01 0.001 =
     Inr ([demo_household 0 ''1'' ''1'', demo_household 1 ''2'' ''2''],
          [demo_person 0 ''1'', demo_person 1 ''2''],
          [(demo_key ''1'', 20, 1), (demo_key ''2'', 30, 1)])
   \<and> map_of (demo_geog ''1'') ''state'' = Some ''06''
   \<and> map_of (hh_cells (demo_household 0 ''1'' ''1'')) ''state'' = Some ''06''
   \<and> map_of (p_cells (demo_person 0 ''1'')) ''state'' = None"
  using demo_sequential by (simp add: demo_geog_def demo_results)

text \<open>
  Claim C1 fails on the code. \<open>finished_args\<close> is filled in completion order
  (line 236), the synthesis tasks are submitted in the order of that list (line
  277), and phase 3 labels the \<open>i\<close>-th of them with \<open>geog_ids[i]\<close>. Two
  geographies, the fetch of the second completing first (a completion order of two
  tasks): the household drawn from block group 2's sample (serial number 2) comes
  first and carries the key columns of block group 1, and the fit of block group
  2 (chi-square 30) is recorded under block group 1's key. When the fetches
  complete in submission order the labels are right.
\<close>

theorem parallel_labels_follow_completion_order:
  "completion_order [1, 0] 2
   \<and> synthesize_all_in_parallel (demo_family []) [1, 0] (demo_recipe []) None None 0.01 0.001 =
       Inr (([demo_household 0 ''2'' ''1'', demo_household 1 ''1'' ''2''],
             [demo_person 0 ''2'', demo_person 1 ''1''],
             [(demo_key ''1'', 30, 1), (demo_key ''2'', 20, 1)]), [])
   \<and> synthesize_all_in_parallel (demo_family []) [0, 1] (demo_recipe []) None None 0.01 0.001 =
       Inr (([demo_household 0 ''1'' ''1'', demo_household 1 ''2'' ''2''],
             [demo_person 0 ''1'', demo_person 1 ''2''],
             [(demo_key ''1'', 20, 1), (demo_key ''2'', 30, 1)]), [])"
  using demo_parallel_swapped demo_parallel_in_order
  by (auto simp: completion_order_def)

text \<open>Three geographies. When the fetch of the second raises, the whole call
  raises. When the synthesis of the first raises, or that of the second, the call
  returns the other two and prints the same line: the exception, without the
  geography.\<close>

theorem parallel_failure_counterexample:
  "synthesize_all_in_parallel (demo_family []) [0, 1, 2] (demo_recipe [''2'']) None
       (Some [demo_geog ''1'', demo_geog ''2'', demo_geog ''3'']) 0.01 0.001
     = Inl (Raised ''no marginal'')
   \<and> synthesize_all_in_parallel (demo_family [0]) [0, 1, 2] (demo_recipe []) None
       (Some [demo_geog ''1'', demo_geog ''2'', demo_geog ''3'']) 0.01 0.001
     = Inr (([demo_household 0 ''2'' ''2'', demo_household 1 ''3'' ''3''],
             [demo_person 0 ''2'', demo_person 1 ''3''],
             [(demo_key ''2'', 30, 1), (demo_key ''3'', 30, 1)]),
            [Raised ''degenerate weights''])
   \<and> synthesize_all_in_parallel (demo_family [1]) [0, 1, 2] (demo_recipe []) None
       (Some [demo_geog ''1'', demo_geog ''2'', demo_geog ''3'']) 0.01 0.001
     = Inr (([demo_household 0 ''1'' ''1'', demo_household 1 ''3'' ''3''],
             [demo_person 0 ''1'', demo_person 1 ''3''],
             [(demo_key ''1'', 20, 1), (demo_key ''3'', 30, 1)]),
            [Raised ''degenerate weights''])"
  using demo_parallel_fetch_fails demo_parallel_first_fails demo_parallel_second_fails
  by simp

theorem parallel_failure_isolated_witness:
  "\<exists>hh pp fq.
      synthesize_all_in_parallel (demo_family [1]) [0, 1, 2] (demo_recipe []) None
        (Some [demo_geog ''1'', demo_geog ''2'', demo_geog ''3'']) (1 / 100) (1 / 1000)
        = Inr ((hh, pp, fq), [Raised ''degenerate weights''])
      \<and> map p_cells pp = [[(''serialno'', ''1'')], [(''serialno'', ''3'')]]
      \<and> set (map fst fq) = {demo_key ''1'', demo_key ''3''}"
proof -
  let ?gs = "[demo_geog ''1'', demo_geog ''2'', demo_geog ''3'']"
  let ?fs = "[Inr (demo_drawn ''1'' 20), Inl (Raised ''degenerate weights''),
              Inr (demo_drawn ''3'' 30)]"
  have 1: "?gs = submitted None 0 (resolve_indexes (demo_recipe []) (Some ?gs))"
    by (simp add: resolve_indexes_def cap_reached_def)
  have 2: "[0, 1, 2] = [0..<length ?gs]"
    by (simp add: upt_rec)
  have 3: "\<forall>g \<in> set ?gs. \<exists>t key. fetch_tables (demo_recipe []) g = Inr t
      \<and> block_group_id g = Inr key"
    using demo_fetch_and_key by simp
  have 4: "?fs = map (\<lambda>(j, g). task_of (demo_family [1]) (demo_recipe []) (1 / 100) (1 / 1000) j g)
      (enumerate 0 ?gs)"
    by (simp add: demo_task)
  have 5: "succeeded ?gs ?fs \<noteq> []"
    by (simp add: succeeded_def)
  from parallel_failure_isolated [OF 1 2 3 4 5] obtain hh pp fq where
    run: "synthesize_all_in_parallel (demo_family [1]) [0, 1, 2] (demo_recipe []) None
        (Some ?gs) (1 / 100) (1 / 1000) = Inr ((hh, pp, fq), failures ?fs)"
    and pp: "map p_cells pp =
          concat (map (\<lambda>(g, r). map p_cells (people r)) (succeeded ?gs ?fs))"
    and fq: "Inr ` set (map fst fq) = block_group_id ` set (map fst (succeeded ?gs ?fs))"
    by blast
  have "failures ?fs = [Raised ''degenerate weights'']"
    by (simp add: failures_def)
  moreover have "map p_cells pp = [[(''serialno'', ''1'')], [(''serialno'', ''3'')]]"
    unfolding pp by (simp add: succeeded_def demo_results)
  moreover have "Inr ` set (map fst fq)
      = (Inr ` {demo_key ''1'', demo_key ''3''} :: (exn + string block_group_id) set)"
    unfolding fq
    by (simp add: succeeded_def block_group_id_def getitem_def demo_geog_def demo_key_def)
  then have "set (map fst fq) = {demo_key ''1'', demo_key ''3''}"
    by (simp only: inj_image_eq_iff [OF inj_Inr])
  ultimately show ?thesis using run by simp
qed

end
